theory Spec2Isabelle
  imports Main
begin

section \<open>The error collector (error_handling.hpp)\<close>

text \<open>
  The collector owns a lazily allocated rapidjson document whose root is an object.
  A rapidjson object is an insertion-ordered sequence of (name, value) members;
  \<open>HasMember\<close> and \<open>operator[]\<close> find the first member with the given name.
  A number is kept as its literal text.
\<close>

datatype json =
    JNull
  | JBool bool
  | JNumber string
  | JString string
  | JArray "json list"
  | JObject "(string \<times> json) list"

text \<open>\<open>doc = None\<close> is the null \<open>doc_\<close> pointer of a freshly constructed collector.\<close>

datatype ErrorCollector = ErrorCollector (doc: "(string \<times> json) list option")

text \<open>\<open>lazy_init\<close>: the members of \<open>doc_\<close> once it has been allocated (as the empty object)
  if it was null.\<close>

definition lazy_init :: "ErrorCollector \<Rightarrow> (string \<times> json) list" where
  "lazy_init c = (case doc c of None \<Rightarrow> [] | Some ms \<Rightarrow> ms)"

text \<open>
  The block shared by \<open>add_error\<close> and \<open>add_suberror\<close>: if the document has a member
  \<open>key\<close>, a non-array value is first replaced by the one-element array holding it, and
  the new value is pushed at the back; otherwise a new member is added at the end.
\<close>

fun push_or_add :: "string \<Rightarrow> json \<Rightarrow> (string \<times> json) list \<Rightarrow> (string \<times> json) list" where
  "push_or_add key v [] = [(key, v)]"
| "push_or_add key v ((name, existing) # ms) =
     (if name = key
      then (name, (case existing of
                     JArray arr \<Rightarrow> JArray (arr @ [v])
                   | _ \<Rightarrow> JArray [existing, v])) # ms
      else (name, existing) # push_or_add key v ms)"

definition add_error :: "ErrorCollector \<Rightarrow> string \<Rightarrow> string \<Rightarrow> ErrorCollector" where
  "add_error c field message =
     ErrorCollector (Some (push_or_add field (JString message) (lazy_init c)))"

definition has_errors :: "ErrorCollector \<Rightarrow> bool" where
  "has_errors c = (case doc c of None \<Rightarrow> False | Some ms \<Rightarrow> ms \<noteq> [])"

text \<open>Observations used in the statements below: the value stored under a path, and the
  sequence of items it stands for (a scalar is one item, an array its elements).\<close>

definition entry_at :: "ErrorCollector \<Rightarrow> string \<Rightarrow> json option" where
  "entry_at c path = map_of (lazy_init c) path"

definition items_at :: "ErrorCollector \<Rightarrow> string \<Rightarrow> json list" where
  "items_at c path =
     (case entry_at c path of
        None \<Rightarrow> []
      | Some (JArray arr) \<Rightarrow> arr
      | Some v \<Rightarrow> [v])"

text \<open>A run of \<open>add_error\<close> calls, in order, on a collector.\<close>

fun add_errors :: "ErrorCollector \<Rightarrow> (string \<times> string) list \<Rightarrow> ErrorCollector" where
  "add_errors c [] = c"
| "add_errors c ((field, message) # rest) = add_errors (add_error c field message) rest"

text \<open>The messages of a run that were recorded at one path, in the order of the calls.\<close>

definition messages_for :: "string \<Rightarrow> (string \<times> string) list \<Rightarrow> string list" where
  "messages_for path calls = map snd (filter (\<lambda>e. fst e = path) calls)"

section \<open>Host objects\<close>

text \<open>
  Type objects the code compares against or stores in a schema. The first two rows are
  the static CPython types (\<open>IntType\<close> is \<open>&PyLong_Type\<close>, \<open>PyNone_Type\<close> is
  \<open>Py_TYPE(Py_None)\<close>); the third row holds objects of the \<open>typing\<close> module as
  init_globals.cpp loads them (\<open>TupleType\<close> is \<open>typing.Tuple\<close>, and so on).
  \<open>Class n\<close> is any other class, \<open>Model n\<close> a subclass of \<open>DataModelType\<close>.
  \<open>Generic origin args\<close> is an annotation with an \<open>__origin__\<close> attribute and a tuple
  \<open>__args__\<close>; \<open>GenericNoArgs origin\<close> has \<open>__origin__\<close> but no tuple \<open>__args__\<close>.
  No other object has an \<open>__origin__\<close> that is not \<open>None\<close>: the unsubscripted
  \<open>typing\<close> objects of the third row are taken as normalize_origin expects them, as the
  origins of their subscripted forms, with no origin of their own.
\<close>

datatype pytype =
    IntType | StrType | FloatType | BoolType | PyNone_Type
  | PyList_Type | PyDict_Type | PyTuple_Type | PySet_Type
  | AnyType | UnionType | ClassVarType | TupleType | SetType | DictType | ListType
  | Class string
  | Model string
  | Generic pytype "pytype list"
  | GenericNoArgs pytype

text \<open>
  Values. A float carries the bit pattern of its double. A dict is its entries in
  iteration order, a set its elements in iteration order. \<open>PyInstance t state\<close> is an
  instance of the class \<open>t\<close> that is none of the built-in kinds above.
\<close>

datatype pyval =
    Py_None
  | PyBool bool
  | PyLong int
  | PyFloat nat
  | PyUnicode string
  | PyList "pyval list"
  | PyTuple "pyval list"
  | PyDict "(pyval \<times> pyval) list"
  | PySet "pyval list"
  | PyInstance pytype pyval

fun Py_TYPE :: "pyval \<Rightarrow> pytype" where
  "Py_TYPE Py_None = PyNone_Type"
| "Py_TYPE (PyBool b) = BoolType"
| "Py_TYPE (PyLong n) = IntType"
| "Py_TYPE (PyFloat f) = FloatType"
| "Py_TYPE (PyUnicode s) = StrType"
| "Py_TYPE (PyList xs) = PyList_Type"
| "Py_TYPE (PyTuple xs) = PyTuple_Type"
| "Py_TYPE (PyDict kvs) = PyDict_Type"
| "Py_TYPE (PySet xs) = PySet_Type"
| "Py_TYPE (PyInstance t state) = t"

text \<open>The type-flag checks of the C API. \<open>bool\<close> is a subclass of \<open>int\<close>, so
  \<open>PyLong_Check\<close> accepts both.\<close>

fun PyLong_Check :: "pyval \<Rightarrow> bool" where
  "PyLong_Check (PyLong n) = True"
| "PyLong_Check (PyBool b) = True"
| "PyLong_Check v = False"

fun PyBool_Check :: "pyval \<Rightarrow> bool" where
  "PyBool_Check (PyBool b) = True"
| "PyBool_Check v = False"

fun PyUnicode_Check :: "pyval \<Rightarrow> bool" where
  "PyUnicode_Check (PyUnicode s) = True"
| "PyUnicode_Check v = False"

fun PyFloat_Check :: "pyval \<Rightarrow> bool" where
  "PyFloat_Check (PyFloat f) = True"
| "PyFloat_Check v = False"

fun PyDict_Check :: "pyval \<Rightarrow> bool" where
  "PyDict_Check (PyDict kvs) = True"
| "PyDict_Check v = False"

text \<open>
  What the code asks of the interpreter and of rapidjson, as parameters:
  \<^item> \<open>is_instance v t\<close>: \<open>PyObject_IsInstance(v, t)\<close> returned non-zero (the code tests the
    result as a C condition);
  \<^item> \<open>call_type t v\<close>: \<open>PyObject_CallFunctionObjArgs(t, v, nullptr)\<close>, \<open>None\<close> when the
    call raises;
  \<^item> \<open>call_model t kw\<close>: \<open>PyObject_Call(t, empty_tuple, kw)\<close>, the construction of a
    nested record from a mapping; \<open>Inl s\<close> when it raises, \<open>s\<close> being the text of the
    exception as validate_data_model reads it;
  \<^item> \<open>hashable v\<close>: inserting \<open>v\<close> as a dict key or set element succeeds;
  \<^item> \<open>py_eq a b\<close>: \<open>a\<close> and \<open>b\<close> are the same dict key or set element;
  \<^item> \<open>type_name t\<close>: what safe_type_name returns for the type object \<open>t\<close>, and
    \<open>tp_name t\<close>: the \<open>tp_name\<close> of \<open>t\<close>, which safe_type_name returns for a value
    of that type;
  \<^item> \<open>json_parse s\<close>: the members of the object that \<open>s\<close> parses to, \<open>None\<close> on a parse
    error or a root that is not an object; \<open>json_render\<close>: the PrettyWriter's text.
\<close>

record host =
  is_instance :: "pyval \<Rightarrow> pytype \<Rightarrow> bool"
  call_type :: "pytype \<Rightarrow> pyval \<Rightarrow> pyval option"
  call_model :: "pytype \<Rightarrow> pyval \<Rightarrow> string + pyval"
  hashable :: "pyval \<Rightarrow> bool"
  py_eq :: "pyval \<Rightarrow> pyval \<Rightarrow> bool"
  type_name :: "pytype \<Rightarrow> string"
  tp_name :: "pytype \<Rightarrow> string"
  json_parse :: "string \<Rightarrow> (string \<times> json) list option"
  json_render :: "(string \<times> json) list \<Rightarrow> string"

text \<open>safe_type_name applied to a value (the validators only pass values that are not
  themselves type objects).\<close>

definition safe_type_name :: "host \<Rightarrow> pyval \<Rightarrow> string" where
  "safe_type_name h obj = tp_name h (Py_TYPE obj)"

definition add_suberror :: "host \<Rightarrow> ErrorCollector \<Rightarrow> string \<Rightarrow> string \<Rightarrow> ErrorCollector" where
  "add_suberror h c field json_errors =
     (case json_parse h json_errors of
        None \<Rightarrow> add_error c field ''Invalid suberror JSON''
      | Some subdoc \<Rightarrow>
          ErrorCollector (Some (foldl (\<lambda>ms (name, v). push_or_add (field @ ''.'' @ name) v ms)
                                      (lazy_init c) subdoc)))"

definition to_json :: "host \<Rightarrow> ErrorCollector \<Rightarrow> string" where
  "to_json h c = (case doc c of None \<Rightarrow> [] | Some ms \<Rightarrow> json_render h ms)"

section \<open>Schemas (schema/schema.hpp, schema/schema.cpp)\<close>

datatype ContainerKind = CK_NONE | CK_DICT | CK_LIST | CK_TUPLE | CK_SET | CK_UNION

text \<open>
  The fields of \<open>struct TypeSchema\<close> that validation reads. \<open>origin = None\<close> is
  \<open>Py_None\<close>; \<open>num_args\<close> is the length of \<open>args\<close>. The cached repr, the \<open>cached\<close> flag
  and \<open>inner_model_type\<close> are read by no function modelled here.
\<close>

datatype TypeSchema = TypeSchema
  (expected_type: pytype)
  (origin: "pytype option")
  (args: "TypeSchema list")
  (is_data_model: bool)
  (is_optional: bool)
  (container_kind: ContainerKind)

definition num_args :: "TypeSchema \<Rightarrow> nat" where
  "num_args ts = length (args ts)"

text \<open>\<open>PyType_Check\<close> on a type object: the classes, not the \<open>typing\<close> objects.\<close>

fun PyType_Check :: "pytype \<Rightarrow> bool" where
  "PyType_Check AnyType = False"
| "PyType_Check UnionType = False"
| "PyType_Check ClassVarType = False"
| "PyType_Check TupleType = False"
| "PyType_Check SetType = False"
| "PyType_Check DictType = False"
| "PyType_Check ListType = False"
| "PyType_Check (Generic og as) = False"
| "PyType_Check (GenericNoArgs og) = False"
| "PyType_Check t = True"

fun is_subclass_of_DataModel :: "pytype \<Rightarrow> bool" where
  "is_subclass_of_DataModel (Model n) = True"
| "is_subclass_of_DataModel t = False"

text \<open>normalize_origin, on an origin that is not \<open>Py_None\<close>.\<close>

definition normalize_origin :: "pytype \<Rightarrow> pytype" where
  "normalize_origin og =
     (if og = TupleType \<or> og = PyTuple_Type then PyTuple_Type
      else if og = SetType \<or> og = PySet_Type then PySet_Type
      else if og = DictType then PyDict_Type
      else og)"

text \<open>handle_container_kind: the kind and the optional flag, from the normalized origin
  and the compiled arguments.\<close>

definition handle_container_kind :: "pytype \<Rightarrow> TypeSchema list \<Rightarrow> ContainerKind \<times> bool" where
  "handle_container_kind og compiled =
     (if og = UnionType
      then (CK_UNION, list_ex (\<lambda>a. expected_type a = PyNone_Type) compiled)
      else if og = PyDict_Type \<and> length compiled = 2 then (CK_DICT, False)
      else if og = PyList_Type \<and> length compiled = 1 then (CK_LIST, False)
      else if og = PyTuple_Type then (CK_TUPLE, False)
      else if og = PySet_Type then (CK_SET, False)
      else (CK_NONE, False))"

text \<open>
  compile_type_schema. The per-type cache returns what an earlier compilation of the same
  type built, so it does not change the result; allocation failure is not modelled.
\<close>

fun compile_type_schema :: "pytype \<Rightarrow> TypeSchema" where
  "compile_type_schema (Generic og as) =
     (let og' = normalize_origin og;
          compiled = map compile_type_schema as;
          (kind, opt) = handle_container_kind og' compiled
      in TypeSchema (Generic og as) (Some og') compiled False opt kind)"
| "compile_type_schema (GenericNoArgs og) =
     TypeSchema (GenericNoArgs og) (Some (normalize_origin og)) [] False False CK_NONE"
| "compile_type_schema t =
     TypeSchema t None [] (PyType_Check t \<and> is_subclass_of_DataModel t) False CK_NONE"

declare compile_type_schema.simps(1) [simp del]

section \<open>Deserializer registry (schema/deserializer.cpp)\<close>

text \<open>The registry maps a (target type, source type) pair, compared by identity, to a
  callable; a callable is the function from its argument to its result, \<open>None\<close> when
  it raises.\<close>

type_synonym Deserializers = "pytype \<times> pytype \<Rightarrow> (pyval \<Rightarrow> pyval option) option"

definition get_deserializer ::
  "Deserializers \<Rightarrow> pytype \<Rightarrow> pytype \<Rightarrow> (pyval \<Rightarrow> pyval option) option" where
  "get_deserializer deserializers deserialize_to deserialize_from =
     deserializers (deserialize_to, deserialize_from)"

section \<open>Validation results and error paths\<close>

text \<open>
  Every validator returns a new reference or \<open>nullptr\<close>. A \<open>nullptr\<close> is \<open>Inl Failed\<close>
  when the interpreter's error indicator is clear on return (the code calls
  \<open>PyErr_Clear\<close> or \<open>PyErr_Fetch\<close> before it returns) and \<open>Inl Raised\<close> when a failed
  C API call left its exception pending. \<open>Inl OutOfBounds\<close> marks a read of \<open>ts->args\<close>
  past \<open>num_args\<close>, which the C++ leaves undefined.
\<close>

datatype failure = Failed | Raised | OutOfBounds

type_synonym result = "(failure + pyval) \<times> ErrorCollector"

type_synonym convert = "pyval \<Rightarrow> TypeSchema \<Rightarrow> ErrorCollector \<Rightarrow> string \<Rightarrow> result"

definition digit_char :: "nat \<Rightarrow> char" where
  "digit_char d = ''0123456789'' ! d"

text \<open>The \<open>%zd\<close> rendering of an index that is not negative.\<close>

fun string_of_nat :: "nat \<Rightarrow> string" where
  "string_of_nat n =
     (if n < 10 then [digit_char n]
      else string_of_nat (n div 10) @ [digit_char (n mod 10)])"

declare string_of_nat.simps [simp del]

text \<open>
  The path of an element in validate_list and validate_dict: the base path is cut to
  at most 254 characters of the 256-character buffer, a dot follows, and \<open>snprintf\<close>
  writes as much of the suffix as the rest of the buffer holds before its terminator.
\<close>

definition nested_path :: "string \<Rightarrow> string \<Rightarrow> string" where
  "nested_path error_path suffix =
     (let base_len = (if length error_path \<ge> 256 - 2 then 256 - 2 else length error_path)
      in take base_len error_path @ ''.'' @ take (256 - base_len - 1 - 1) suffix)"

text \<open>The path of an element in validate_tuple and validate_set:
  \<open>snprintf(new_path, 256, "%s.%zd", error_path, i)\<close>.\<close>

definition printed_path :: "string \<Rightarrow> nat \<Rightarrow> string" where
  "printed_path error_path i = take (256 - 1) (error_path @ ''.'' @ string_of_nat i)"

section \<open>Primitive validators (validation/validation_primitives.cpp)\<close>

definition validate_int :: "host \<Rightarrow> pyval \<Rightarrow> ErrorCollector \<Rightarrow> string \<Rightarrow> result" where
  "validate_int h value collector error_path =
     (if PyLong_Check value then (Inr value, collector)
      else (case call_type h IntType value of
              Some conv \<Rightarrow>
                if PyLong_Check conv then (Inr conv, collector)
                else (Inl Failed, add_error collector error_path
                        (''Expected type int, got '' @ safe_type_name h value))
            | None \<Rightarrow>
                (Inl Failed, add_error collector error_path
                   (''Expected type int, got '' @ safe_type_name h value))))"

definition validate_str :: "host \<Rightarrow> pyval \<Rightarrow> ErrorCollector \<Rightarrow> string \<Rightarrow> result" where
  "validate_str h value collector error_path =
     (if PyUnicode_Check value then (Inr value, collector)
      else (case call_type h StrType value of
              Some conv \<Rightarrow>
                if PyUnicode_Check conv then (Inr conv, collector)
                else (Inl Failed, add_error collector error_path
                        (''Expected type str, got '' @ safe_type_name h value))
            | None \<Rightarrow>
                (Inl Failed, add_error collector error_path
                   (''Expected type str, got '' @ safe_type_name h value))))"

definition validate_float :: "host \<Rightarrow> pyval \<Rightarrow> ErrorCollector \<Rightarrow> string \<Rightarrow> result" where
  "validate_float h value collector error_path =
     (if PyFloat_Check value then (Inr value, collector)
      else (case call_type h FloatType value of
              Some conv \<Rightarrow>
                if PyFloat_Check conv then (Inr conv, collector)
                else (Inl Failed, add_error collector error_path
                        (''Expected type float, got '' @ safe_type_name h value))
            | None \<Rightarrow>
                (Inl Failed, add_error collector error_path
                   (''Expected type float, got '' @ safe_type_name h value))))"

definition validate_bool :: "host \<Rightarrow> pyval \<Rightarrow> ErrorCollector \<Rightarrow> string \<Rightarrow> result" where
  "validate_bool h value collector error_path =
     (if PyBool_Check value then (Inr value, collector)
      else (case call_type h BoolType value of
              Some conv \<Rightarrow>
                if PyBool_Check conv then (Inr conv, collector)
                else (Inl Failed, add_error collector error_path
                        (''Expected type bool, got '' @ safe_type_name h value))
            | None \<Rightarrow>
                (Inl Failed, add_error collector error_path
                   (''Expected type bool, got '' @ safe_type_name h value))))"

section \<open>Plain values, nested records, constructor fallback (validation/validation.cpp)\<close>

text \<open>Every caller in the repository passes a collector, so the \<open>if (collector)\<close> guards
  are taken.\<close>

definition validate_data_model ::
  "host \<Rightarrow> pyval \<Rightarrow> TypeSchema \<Rightarrow> ErrorCollector \<Rightarrow> string \<Rightarrow> result" where
  "validate_data_model h value ts collector error_path =
     (case call_model h (expected_type ts) value of
        Inr converted \<Rightarrow> (Inr converted, collector)
      | Inl nested_json \<Rightarrow> (Inl Failed, add_suberror h collector error_path nested_json))"

definition convert_using_constructor ::
  "host \<Rightarrow> pyval \<Rightarrow> TypeSchema \<Rightarrow> ErrorCollector \<Rightarrow> string \<Rightarrow> result" where
  "convert_using_constructor h value ts collector error_path =
     (case call_type h (expected_type ts) value of
        Some conv \<Rightarrow>
          if is_instance h conv (expected_type ts) then (Inr conv, collector)
          else (Inl Failed, add_error collector error_path
                  (''Expected type '' @ type_name h (expected_type ts) @ '', got ''
                     @ safe_type_name h value))
      | None \<Rightarrow>
          (Inl Failed, add_error collector error_path
             (''Expected type '' @ type_name h (expected_type ts) @ '', got ''
                @ safe_type_name h value)))"

text \<open>validate_plain ends with the statements of convert_using_constructor, written out
  again in the source; the model calls the definition above.\<close>

text \<open>The first half of validate_plain's else branch: the registered deserializer, if
  any, and its result if that is an instance of the expected type.\<close>

definition try_deserializer ::
  "host \<Rightarrow> Deserializers option \<Rightarrow> pyval \<Rightarrow> TypeSchema \<Rightarrow> pyval option" where
  "try_deserializer h deserializers value ts =
     (case deserializers of
        None \<Rightarrow> None
      | Some reg \<Rightarrow>
          (case get_deserializer reg (expected_type ts) (Py_TYPE value) of
             None \<Rightarrow> None
           | Some deserializer_func \<Rightarrow>
               (case deserializer_func value of
                  None \<Rightarrow> None
                | Some deserialized \<Rightarrow>
                    if is_instance h deserialized (expected_type ts)
                    then Some deserialized else None)))"

definition validate_plain ::
  "host \<Rightarrow> Deserializers option \<Rightarrow> pyval \<Rightarrow> TypeSchema \<Rightarrow> ErrorCollector \<Rightarrow> string \<Rightarrow> result" where
  "validate_plain h deserializers value ts collector error_path =
     (if is_instance h value (expected_type ts) then (Inr value, collector)
      else (case try_deserializer h deserializers value ts of
              Some deserialized \<Rightarrow> (Inr deserialized, collector)
            | None \<Rightarrow>
                if expected_type ts = IntType then validate_int h value collector error_path
                else if expected_type ts = StrType then validate_str h value collector error_path
                else if expected_type ts = FloatType then validate_float h value collector error_path
                else if expected_type ts = BoolType then validate_bool h value collector error_path
                else convert_using_constructor h value ts collector error_path))"

section \<open>Containers and unions (validation/validation_containers.cpp)\<close>

text \<open>
  The container validators call validate_and_convert on their elements, and
  validate_and_convert dispatches to them. Each is defined here over the function
  \<open>vc\<close> it calls for an element; validate_and_convert below passes itself.
\<close>

fun validate_list_items ::
  "convert \<Rightarrow> TypeSchema \<Rightarrow> string \<Rightarrow> nat \<Rightarrow> pyval list \<Rightarrow> ErrorCollector
     \<Rightarrow> (failure + pyval list) \<times> ErrorCollector" where
  "validate_list_items vc ts error_path i [] collector = (Inr [], collector)"
| "validate_list_items vc ts error_path i (item # rest) collector =
     (case args ts of
        [] \<Rightarrow> (Inl OutOfBounds, collector)
      | elem_schema # _ \<Rightarrow>
          (case vc item elem_schema collector (nested_path error_path (string_of_nat i)) of
             (Inl e, collector') \<Rightarrow> (Inl e, collector')
           | (Inr conv_item, collector') \<Rightarrow>
               (case validate_list_items vc ts error_path (Suc i) rest collector' of
                  (Inl e, collector'') \<Rightarrow> (Inl e, collector'')
                | (Inr conv_rest, collector'') \<Rightarrow> (Inr (conv_item # conv_rest), collector''))))"

definition validate_list ::
  "host \<Rightarrow> convert \<Rightarrow> pyval \<Rightarrow> TypeSchema \<Rightarrow> ErrorCollector \<Rightarrow> string \<Rightarrow> result" where
  "validate_list h vc value ts collector error_path =
     (case value of
        PyList items \<Rightarrow>
          (case validate_list_items vc ts error_path 0 items collector of
             (Inl e, collector') \<Rightarrow> (Inl e, collector')
           | (Inr new_list, collector') \<Rightarrow> (Inr (PyList new_list), collector'))
      | _ \<Rightarrow> (Inl Failed, add_error collector error_path
                 (''Expected a list, got '' @ safe_type_name h value)))"

text \<open>\<open>PyDict_SetItem\<close> on the dict under construction: the value of an equal key is
  replaced in place, a new key goes to the end. The path of an entry is built from the
  key's text as a C string, which ends at its first NUL character.\<close>

fun dict_set_item :: "host \<Rightarrow> (pyval \<times> pyval) list \<Rightarrow> pyval \<Rightarrow> pyval \<Rightarrow> (pyval \<times> pyval) list" where
  "dict_set_item h [] k v = [(k, v)]"
| "dict_set_item h ((k', v') # kvs) k v =
     (if py_eq h k' k then (k', v) # kvs else (k', v') # dict_set_item h kvs k v)"

fun validate_dict_items ::
  "host \<Rightarrow> convert \<Rightarrow> TypeSchema \<Rightarrow> TypeSchema \<Rightarrow> string \<Rightarrow> (pyval \<times> pyval) list
     \<Rightarrow> (pyval \<times> pyval) list \<Rightarrow> ErrorCollector
     \<Rightarrow> (failure + (pyval \<times> pyval) list) \<times> ErrorCollector" where
  "validate_dict_items h vc key_schema val_schema error_path [] new_dict collector =
     (Inr new_dict, collector)"
| "validate_dict_items h vc key_schema val_schema error_path ((key, val) # rest) new_dict collector =
     (let key_str = (case key of
                       PyUnicode s \<Rightarrow> takeWhile (\<lambda>ch. ch \<noteq> CHR 0x00) s
                     | _ \<Rightarrow> safe_type_name h key);
          new_path = nested_path error_path key_str
      in case vc key key_schema collector new_path of
           (Inl e, collector') \<Rightarrow> (Inl e, collector')
         | (Inr conv_key, collector') \<Rightarrow>
             (case vc val val_schema collector' new_path of
                (Inl e, collector'') \<Rightarrow> (Inl e, collector'')
              | (Inr conv_val, collector'') \<Rightarrow>
                  if hashable h conv_key
                  then validate_dict_items h vc key_schema val_schema error_path rest
                         (dict_set_item h new_dict conv_key conv_val) collector''
                  else (Inl Raised, collector'')))"

definition validate_dict ::
  "host \<Rightarrow> convert \<Rightarrow> pyval \<Rightarrow> TypeSchema \<Rightarrow> ErrorCollector \<Rightarrow> string \<Rightarrow> result" where
  "validate_dict h vc value ts collector error_path =
     (case value of
        PyDict entries \<Rightarrow>
          (case args ts of
             key_schema # val_schema # _ \<Rightarrow>
               (case validate_dict_items h vc key_schema val_schema error_path entries [] collector of
                  (Inl e, collector') \<Rightarrow> (Inl e, collector')
                | (Inr new_dict, collector') \<Rightarrow> (Inr (PyDict new_dict), collector'))
           | _ \<Rightarrow> (Inl OutOfBounds, collector))
      | _ \<Rightarrow> (Inl Failed, add_error collector error_path
                 (''Expected a dict, got '' @ safe_type_name h value)))"

fun validate_tuple_items ::
  "convert \<Rightarrow> string \<Rightarrow> nat \<Rightarrow> pyval list \<Rightarrow> TypeSchema list \<Rightarrow> ErrorCollector
     \<Rightarrow> (failure + pyval list) \<times> ErrorCollector" where
  "validate_tuple_items vc error_path i [] schemas collector = (Inr [], collector)"
| "validate_tuple_items vc error_path i (item # rest) [] collector = (Inl OutOfBounds, collector)"
| "validate_tuple_items vc error_path i (item # rest) (schema # schemas) collector =
     (case vc item schema collector (printed_path error_path i) of
        (Inl e, collector') \<Rightarrow> (Inl e, collector')
      | (Inr conv_item, collector') \<Rightarrow>
          (case validate_tuple_items vc error_path (Suc i) rest schemas collector' of
             (Inl e, collector'') \<Rightarrow> (Inl e, collector'')
           | (Inr conv_rest, collector'') \<Rightarrow> (Inr (conv_item # conv_rest), collector'')))"

definition validate_tuple ::
  "host \<Rightarrow> convert \<Rightarrow> pyval \<Rightarrow> TypeSchema \<Rightarrow> ErrorCollector \<Rightarrow> string \<Rightarrow> result" where
  "validate_tuple h vc value ts collector error_path =
     (case value of
        PyTuple items \<Rightarrow>
          if num_args ts \<noteq> length items
          then (Inl Failed, add_error collector error_path
                  (''Expected tuple of length '' @ string_of_nat (num_args ts) @ '', got ''
                     @ string_of_nat (length items)))
          else (case validate_tuple_items vc error_path 0 items (args ts) collector of
                  (Inl e, collector') \<Rightarrow> (Inl e, collector')
                | (Inr new_tuple, collector') \<Rightarrow> (Inr (PyTuple new_tuple), collector'))
      | _ \<Rightarrow> (Inl Failed, add_error collector error_path
                 (''Expected a tuple, got '' @ safe_type_name h value)))"

text \<open>\<open>PySet_Add\<close> on the set under construction.\<close>

definition set_add :: "host \<Rightarrow> pyval list \<Rightarrow> pyval \<Rightarrow> pyval list" where
  "set_add h new_set x = (if list_ex (\<lambda>y. py_eq h y x) new_set then new_set else new_set @ [x])"

fun validate_set_items ::
  "host \<Rightarrow> convert \<Rightarrow> TypeSchema \<Rightarrow> string \<Rightarrow> nat \<Rightarrow> pyval list \<Rightarrow> pyval list \<Rightarrow> ErrorCollector
     \<Rightarrow> (failure + pyval list) \<times> ErrorCollector" where
  "validate_set_items h vc ts error_path idx [] new_set collector = (Inr new_set, collector)"
| "validate_set_items h vc ts error_path idx (item # rest) new_set collector =
     (case args ts of
        [] \<Rightarrow> (Inl OutOfBounds, collector)
      | elem_schema # _ \<Rightarrow>
          (case vc item elem_schema collector (printed_path error_path idx) of
             (Inl e, collector') \<Rightarrow> (Inl e, collector')
           | (Inr conv_item, collector') \<Rightarrow>
               if hashable h conv_item
               then validate_set_items h vc ts error_path (Suc idx) rest
                      (set_add h new_set conv_item) collector'
               else (Inl Raised, collector')))"

definition validate_set ::
  "host \<Rightarrow> convert \<Rightarrow> pyval \<Rightarrow> TypeSchema \<Rightarrow> ErrorCollector \<Rightarrow> string \<Rightarrow> result" where
  "validate_set h vc value ts collector error_path =
     (case value of
        PySet items \<Rightarrow>
          (case validate_set_items h vc ts error_path 0 items [] collector of
             (Inl e, collector') \<Rightarrow> (Inl e, collector')
           | (Inr new_set, collector') \<Rightarrow> (Inr (PySet new_set), collector'))
      | _ \<Rightarrow> (Inl Failed, add_error collector error_path
                 (''Expected a set, got '' @ safe_type_name h value)))"

text \<open>The type a union candidate is checked against in the first loop of
  validate_union.\<close>

definition check_type :: "TypeSchema \<Rightarrow> pytype" where
  "check_type candidate =
     (case origin candidate of Some og \<Rightarrow> og | None \<Rightarrow> expected_type candidate)"

text \<open>First loop: is the value an instance of the check type of some candidate.\<close>

fun union_first_pass :: "host \<Rightarrow> pyval \<Rightarrow> TypeSchema list \<Rightarrow> bool" where
  "union_first_pass h value [] = False"
| "union_first_pass h value (candidate # rest) =
     (if is_instance h value (check_type candidate) then True
      else union_first_pass h value rest)"

text \<open>Second loop: the candidates in order, all writing to the same temporary
  collector; a \<open>nullptr\<close> is followed by \<open>PyErr_Clear\<close> and the next candidate.\<close>

fun union_second_pass ::
  "convert \<Rightarrow> pyval \<Rightarrow> TypeSchema list \<Rightarrow> ErrorCollector \<Rightarrow> string \<Rightarrow> failure + pyval" where
  "union_second_pass vc value [] temp_collector error_path = Inl Failed"
| "union_second_pass vc value (candidate # rest) temp_collector error_path =
     (case vc value candidate temp_collector error_path of
        (Inr conv, temp') \<Rightarrow> Inr conv
      | (Inl e, temp') \<Rightarrow>
          if e = OutOfBounds then Inl OutOfBounds
          else union_second_pass vc value rest temp' error_path)"

definition validate_union ::
  "host \<Rightarrow> convert \<Rightarrow> pyval \<Rightarrow> TypeSchema \<Rightarrow> ErrorCollector \<Rightarrow> string \<Rightarrow> result" where
  "validate_union h vc value ts collector error_path =
     (if union_first_pass h value (args ts) then (Inr value, collector)
      else (case union_second_pass vc value (args ts) (ErrorCollector None) error_path of
              Inr conv \<Rightarrow> (Inr conv, collector)
            | Inl e \<Rightarrow>
                if e = OutOfBounds then (Inl OutOfBounds, collector)
                else (Inl Failed, add_error collector error_path
                        (''Value did not match any candidate in Union: got ''
                           @ safe_type_name h value))))"

text \<open>Each container validator applies \<open>vc\<close> to argument schemas of \<open>ts\<close> only; the
  definition of validate_and_convert rests on that.\<close>

lemma validate_list_items_cong:
  "(\<And>v a c p. a \<in> set (args ts) \<Longrightarrow> vc v a c p = vc' v a c p) \<Longrightarrow>
   validate_list_items vc ts error_path i items collector =
   validate_list_items vc' ts error_path i items collector"
  by (induction items arbitrary: i collector) (auto split: list.splits prod.splits sum.splits)

lemma validate_list_cong [fundef_cong]:
  "\<lbrakk>h = h'; value = value'; ts = ts'; collector = collector'; error_path = error_path';
    \<And>v a c p. a \<in> set (args ts') \<Longrightarrow> vc v a c p = vc' v a c p\<rbrakk> \<Longrightarrow>
   validate_list h vc value ts collector error_path =
   validate_list h' vc' value' ts' collector' error_path'"
  using validate_list_items_cong [of ts' vc vc']
  by (simp add: validate_list_def split: pyval.splits)

lemma validate_dict_items_cong:
  "(\<And>v c p. vc v ks c p = vc' v ks c p) \<Longrightarrow> (\<And>v c p. vc v vs c p = vc' v vs c p) \<Longrightarrow>
   validate_dict_items h vc ks vs error_path entries new_dict collector =
   validate_dict_items h vc' ks vs error_path entries new_dict collector"
  by (induction entries arbitrary: new_dict collector)
     (auto simp: Let_def split: prod.splits sum.splits)

lemma validate_dict_cong [fundef_cong]:
  "\<lbrakk>h = h'; value = value'; ts = ts'; collector = collector'; error_path = error_path';
    \<And>v a c p. a \<in> set (args ts') \<Longrightarrow> vc v a c p = vc' v a c p\<rbrakk> \<Longrightarrow>
   validate_dict h vc value ts collector error_path =
   validate_dict h' vc' value' ts' collector' error_path'"
  by (auto simp: validate_dict_def split: pyval.splits list.splits
           intro!: arg_cong [where f = "case_prod _"] validate_dict_items_cong)

lemma validate_tuple_items_cong:
  "(\<And>v a c p. a \<in> set schemas \<Longrightarrow> vc v a c p = vc' v a c p) \<Longrightarrow>
   validate_tuple_items vc error_path i items schemas collector =
   validate_tuple_items vc' error_path i items schemas collector"
  by (induction vc error_path i items schemas collector rule: validate_tuple_items.induct)
     (auto split: prod.splits sum.splits)

lemma validate_tuple_cong [fundef_cong]:
  "\<lbrakk>h = h'; value = value'; ts = ts'; collector = collector'; error_path = error_path';
    \<And>v a c p. a \<in> set (args ts') \<Longrightarrow> vc v a c p = vc' v a c p\<rbrakk> \<Longrightarrow>
   validate_tuple h vc value ts collector error_path =
   validate_tuple h' vc' value' ts' collector' error_path'"
  using validate_tuple_items_cong [of "args ts'" vc vc']
  by (simp add: validate_tuple_def split: pyval.splits)

lemma validate_set_items_cong:
  "(\<And>v a c p. a \<in> set (args ts) \<Longrightarrow> vc v a c p = vc' v a c p) \<Longrightarrow>
   validate_set_items h vc ts error_path idx items new_set collector =
   validate_set_items h vc' ts error_path idx items new_set collector"
  by (induction items arbitrary: idx new_set collector)
     (auto split: list.splits prod.splits sum.splits)

lemma validate_set_cong [fundef_cong]:
  "\<lbrakk>h = h'; value = value'; ts = ts'; collector = collector'; error_path = error_path';
    \<And>v a c p. a \<in> set (args ts') \<Longrightarrow> vc v a c p = vc' v a c p\<rbrakk> \<Longrightarrow>
   validate_set h vc value ts collector error_path =
   validate_set h' vc' value' ts' collector' error_path'"
  using validate_set_items_cong [of ts' vc vc']
  by (simp add: validate_set_def split: pyval.splits)

lemma union_second_pass_cong:
  "(\<And>v a c p. a \<in> set candidates \<Longrightarrow> vc v a c p = vc' v a c p) \<Longrightarrow>
   union_second_pass vc value candidates temp error_path =
   union_second_pass vc' value candidates temp error_path"
  by (induction candidates arbitrary: temp)
     (auto split: prod.splits sum.splits)

lemma validate_union_cong [fundef_cong]:
  "\<lbrakk>h = h'; value = value'; ts = ts'; collector = collector'; error_path = error_path';
    \<And>v a c p. a \<in> set (args ts') \<Longrightarrow> vc v a c p = vc' v a c p\<rbrakk> \<Longrightarrow>
   validate_union h vc value ts collector error_path =
   validate_union h' vc' value' ts' collector' error_path'"
  using union_second_pass_cong [of "args ts'" vc vc']
  by (simp add: validate_union_def)

lemma size_args: "a \<in> set (args ts) \<Longrightarrow> size a < size ts"
  by (cases ts) (auto simp: less_Suc_eq_le dest: size_list_estimation')

section \<open>The dispatcher (validation/validation.cpp)\<close>

function validate_and_convert ::
  "host \<Rightarrow> Deserializers option \<Rightarrow> pyval \<Rightarrow> TypeSchema \<Rightarrow> ErrorCollector \<Rightarrow> string \<Rightarrow> result" where
  "validate_and_convert h deserializers value ts collector error_path =
     (if value = Py_None \<and> is_optional ts then (Inr Py_None, collector)
      else if expected_type ts = AnyType then (Inr value, collector)
      else if is_data_model ts \<and> PyDict_Check value
        then validate_data_model h value ts collector error_path
      else if container_kind ts = CK_LIST
        then validate_list h (validate_and_convert h deserializers) value ts collector error_path
      else if container_kind ts = CK_DICT
        then validate_dict h (validate_and_convert h deserializers) value ts collector error_path
      else if container_kind ts = CK_TUPLE
        then validate_tuple h (validate_and_convert h deserializers) value ts collector error_path
      else if container_kind ts = CK_SET
        then validate_set h (validate_and_convert h deserializers) value ts collector error_path
      else if origin ts = None
        then validate_plain h deserializers value ts collector error_path
      else if container_kind ts = CK_UNION
        then validate_union h (validate_and_convert h deserializers) value ts collector error_path
      else convert_using_constructor h value ts collector error_path)"
  by pat_completeness auto
termination
  by (relation "measure (\<lambda>(h, deserializers, value, ts, collector, error_path). size ts)")
     (auto simp: size_args)

declare validate_and_convert.simps [simp del]

section \<open>Record instances (data_model.cpp)\<close>

text \<open>
  \<open>struct FieldSchema\<close>. \<open>alias_list\<close> is the field \<open>alias\<close>, \<open>None\<close> the null pointer; the schema compiler
  stores a list, of strings for any declared alias. \<open>default_value = None\<close> is
  \<open>VLDTUndefined\<close>. \<open>default_factory = None\<close> is \<open>Py_None\<close>; the schema compiler stores
  nothing else that is not callable, and a callable is given by what calling it with no
  argument returns, \<open>None\<close> when the call raises.
\<close>

record FieldSchema =
  field_name :: string
  alias_list :: "string list option"
  default_value :: "pyval option"
  default_factory :: "pyval option option"
  type_schema :: TypeSchema

text \<open>The keyword mapping: its entries under string keys, the only keys the field loop
  looks up. The field store of an instance is \<open>InstanceData::fields\<close>.\<close>

type_synonym kwargs = "string \<Rightarrow> pyval option"

type_synonym InstanceData = "string \<Rightarrow> pyval option"

text \<open>
  The exception a \<open>-1\<close> return leaves behind: the two the code sets itself, an exception
  of a validator or of the C API that it passes on (\<open>Propagated\<close>), and \<open>Undefined\<close> for
  what neither C++ nor the C API defines: a null mapping handed to the C API, a read
  past a schema's arguments, a call into the interpreter while an exception is pending.
\<close>

datatype pyerr = TypeError string | AttributeError string | Propagated | Undefined

text \<open>
  \<open>struct SchemaCache\<close>, as far as construction and assignment read it
  (\<open>schema_fields\<close> is its array \<open>fields\<close>). A validator list
  holds the callables that get_callable_validator accepts, in order (it skips the
  others). A model_before validator is given by the mapping as it leaves it and the
  mapping it returns, if it returns one; a field validator by the value it returns; a
  model_after validator by the field store as it leaves it. \<open>None\<close> is a raised
  exception throughout.
\<close>

record SchemaCache =
  schema_fields :: "FieldSchema list"
  instance_annotations :: "(string \<times> pytype) list"
  has_model_before :: bool
  has_field_before :: bool
  has_field_after :: bool
  has_model_after :: bool
  model_before :: "(kwargs \<Rightarrow> (kwargs \<times> kwargs option) option) list"
  field_before :: "(string \<times> (pyval \<Rightarrow> pyval option) list) list"
  field_after :: "(string \<times> (pyval \<Rightarrow> pyval option) list) list"
  model_after :: "(InstanceData \<Rightarrow> InstanceData option) list"
  deserializers :: "Deserializers option"

text \<open>Lines 172 to 190 of DataModel_init: the aliases in declared order, the first one
  present wins; the canonical name only if no alias gave a value.\<close>

fun first_alias :: "kwargs \<Rightarrow> string list \<Rightarrow> pyval option" where
  "first_alias kwds [] = None"
| "first_alias kwds (alias_key # rest) =
     (case kwds alias_key of
        Some value \<Rightarrow> Some value
      | None \<Rightarrow> first_alias kwds rest)"

definition lookup_input :: "kwargs option \<Rightarrow> FieldSchema \<Rightarrow> pyval option" where
  "lookup_input kwds fs =
     (case kwds of
        None \<Rightarrow> None
      | Some kw \<Rightarrow>
          (case (case alias_list fs of None \<Rightarrow> None | Some aliases \<Rightarrow> first_alias kw aliases) of
             Some value \<Rightarrow> Some value
           | None \<Rightarrow> kw (field_name fs)))"

text \<open>Lines 192 to 212: the value of a field that the mapping does not give, or the
  message of the error that ends this field's iteration.\<close>

definition resolve_missing :: "FieldSchema \<Rightarrow> string + pyval" where
  "resolve_missing fs =
     (case default_factory fs of
        Some call_result \<Rightarrow>
          (case call_result of
             Some value \<Rightarrow> Inr value
           | None \<Rightarrow> Inl ''Missing required field and default factory call failed'')
      | None \<Rightarrow>
          (case default_value fs of
             Some value \<Rightarrow> Inr value
           | None \<Rightarrow>
               if is_optional (type_schema fs) then Inr Py_None
               else Inl ''Missing required field''))"

text \<open>Lines 214 to 229: validation of the resolved value; on a \<open>nullptr\<close> the value itself
  is stored and the loop goes on. \<open>None\<close> is a read past a schema's arguments.\<close>

definition store_validated ::
  "host \<Rightarrow> Deserializers option \<Rightarrow> FieldSchema \<Rightarrow> pyval \<Rightarrow> InstanceData \<Rightarrow> ErrorCollector
     \<Rightarrow> (InstanceData \<times> ErrorCollector) option" where
  "store_validated h ds fs value data collector =
     (case validate_and_convert h ds value (type_schema fs) collector (field_name fs) of
        (Inr new_value, collector') \<Rightarrow> Some (data(field_name fs \<mapsto> new_value), collector')
      | (Inl e, collector') \<Rightarrow>
          if e = OutOfBounds then None
          else Some (data(field_name fs \<mapsto> value), collector'))"

text \<open>One iteration of the field loop.\<close>

definition init_field ::
  "host \<Rightarrow> Deserializers option \<Rightarrow> kwargs option \<Rightarrow> FieldSchema \<Rightarrow> InstanceData \<Rightarrow> ErrorCollector
     \<Rightarrow> (InstanceData \<times> ErrorCollector) option" where
  "init_field h ds kwds fs data collector =
     (case lookup_input kwds fs of
        Some value \<Rightarrow> store_validated h ds fs value data collector
      | None \<Rightarrow>
          (case resolve_missing fs of
             Inl message \<Rightarrow> Some (data, add_error collector (field_name fs) message)
           | Inr value \<Rightarrow> store_validated h ds fs value data collector))"

text \<open>
  The loop never clears the interpreter's error indicator: the exception of a failed
  factory call (lines 195 to 201) and the exception that a validation left pending
  (\<open>Inl Raised\<close>, lines 216 to 223) are still pending when the next iteration starts.
  \<open>leaves_exception\<close>: an iteration that started with the indicator clear ends with
  one of these two pending. (An instance check that raised leaves its exception as
  well; \<open>is_instance\<close> holds only the truth value that the code tests, and that exception
  is not followed.)
\<close>

definition leaves_exception ::
  "host \<Rightarrow> Deserializers option \<Rightarrow> kwargs option \<Rightarrow> FieldSchema \<Rightarrow> ErrorCollector \<Rightarrow> bool" where
  "leaves_exception h ds kwds fs collector =
     (case lookup_input kwds fs of
        Some value \<Rightarrow>
          fst (validate_and_convert h ds value (type_schema fs) collector (field_name fs))
            = Inl Raised
      | None \<Rightarrow>
          (case resolve_missing fs of
             Inl message \<Rightarrow> default_factory fs = Some None
           | Inr value \<Rightarrow>
               fst (validate_and_convert h ds value (type_schema fs) collector (field_name fs))
                 = Inl Raised))"

text \<open>
  An iteration that starts with an exception pending. validate_and_convert returns
  null for an optional schema, and any value for \<open>typing.Any\<close>, before it calls
  anything, and the value is stored; an absent field with no factory, no default and
  no optional schema is recorded as always. Every other iteration goes on into the C
  API (the factory, an instance check, a constructor, the building of a container)
  while the exception is pending, which the protocol of the C API rules out (a debug
  build of the interpreter asserts that no exception is pending when it is called): the
  model gives such an iteration no result. The exception stays pending in each case.
\<close>

definition store_validated_pending ::
  "FieldSchema \<Rightarrow> pyval \<Rightarrow> InstanceData \<Rightarrow> ErrorCollector
     \<Rightarrow> (InstanceData \<times> ErrorCollector) option" where
  "store_validated_pending fs value data collector =
     (if value = Py_None \<and> is_optional (type_schema fs)
      then Some (data(field_name fs \<mapsto> Py_None), collector)
      else if expected_type (type_schema fs) = AnyType
      then Some (data(field_name fs \<mapsto> value), collector)
      else None)"

definition init_field_pending ::
  "kwargs option \<Rightarrow> FieldSchema \<Rightarrow> InstanceData \<Rightarrow> ErrorCollector
     \<Rightarrow> (InstanceData \<times> ErrorCollector) option" where
  "init_field_pending kwds fs data collector =
     (case lookup_input kwds fs of
        Some value \<Rightarrow> store_validated_pending fs value data collector
      | None \<Rightarrow>
          (case default_factory fs of
             Some call_result \<Rightarrow> None
           | None \<Rightarrow>
               (case default_value fs of
                  Some value \<Rightarrow> store_validated_pending fs value data collector
                | None \<Rightarrow>
                    if is_optional (type_schema fs)
                    then store_validated_pending fs Py_None data collector
                    else Some (data, add_error collector (field_name fs)
                                       ''Missing required field''))))"

text \<open>The loop over the fields, lines 166 to 230. \<open>pending\<close>: an exception is pending when
  the iteration starts. The result is the field store, the collector and whether an
  exception is pending after the last field.\<close>

fun init_fields ::
  "host \<Rightarrow> Deserializers option \<Rightarrow> kwargs option \<Rightarrow> FieldSchema list \<Rightarrow> InstanceData
     \<Rightarrow> ErrorCollector \<Rightarrow> bool \<Rightarrow> (InstanceData \<times> ErrorCollector \<times> bool) option" where
  "init_fields h ds kwds [] data collector pending = Some (data, collector, pending)"
| "init_fields h ds kwds (fs # rest) data collector pending =
     (if pending
      then (case init_field_pending kwds fs data collector of
              None \<Rightarrow> None
            | Some (data', collector') \<Rightarrow> init_fields h ds kwds rest data' collector' True)
      else (case init_field h ds kwds fs data collector of
              None \<Rightarrow> None
            | Some (data', collector') \<Rightarrow>
                init_fields h ds kwds rest data' collector'
                  (leaves_exception h ds kwds fs collector)))"

text \<open>is_class_var: the annotation has an \<open>__origin__\<close> that is \<open>typing.ClassVar\<close>.\<close>

fun is_class_var :: "pytype \<Rightarrow> bool" where
  "is_class_var (Generic og as) = (og = ClassVarType)"
| "is_class_var (GenericNoArgs og) = (og = ClassVarType)"
| "is_class_var t = False"

text \<open>The \<open>%R\<close> rendering of an attribute name (a name has no character to escape).\<close>

definition repr_name :: "string \<Rightarrow> string" where
  "repr_name name = [CHR 0x27] @ name @ [CHR 0x27]"

text \<open>DataModel_setattro: the exception of a \<open>-1\<close> return, if any, and the field store
  after the call.\<close>

definition DataModel_setattro ::
  "host \<Rightarrow> SchemaCache \<Rightarrow> InstanceData \<Rightarrow> string \<Rightarrow> pyval \<Rightarrow> pyerr option \<times> InstanceData" where
  "DataModel_setattro h schema data name value =
     (case map_of (instance_annotations schema) name of
        Some annotation \<Rightarrow>
          if is_class_var annotation
          then (Some (AttributeError ''Cannot set ClassVar attribute''), data)
          else (case validate_and_convert h (deserializers schema) value
                       (compile_type_schema annotation) (ErrorCollector None) name of
                  (Inr converted, collector) \<Rightarrow> (None, data(name \<mapsto> converted))
                | (Inl e, collector) \<Rightarrow>
                    if e = OutOfBounds then (Some Undefined, data)
                    else if has_errors collector
                    then (Some (TypeError (to_json h collector)), data)
                    else (Some (TypeError (''Invalid value for attribute '' @ repr_name name)),
                          data))
      | None \<Rightarrow> (None, data(name \<mapsto> value)))"

section \<open>Validator passes (validation/validation_validators.cpp)\<close>

text \<open>run_model_validators with \<open>call_with_cls\<close> set, as run_model_before_validators
  calls it: a returned mapping is merged into the target with \<open>PyDict_Update\<close>, which
  refuses a null target.\<close>

fun run_model_validators ::
  "(kwargs \<Rightarrow> (kwargs \<times> kwargs option) option) list \<Rightarrow> kwargs \<Rightarrow> pyerr + kwargs" where
  "run_model_validators [] target = Inr target"
| "run_model_validators (validator # rest) target =
     (case validator target of
        None \<Rightarrow> Inl Propagated
      | Some (target', None) \<Rightarrow> run_model_validators rest target'
      | Some (target', Some returned) \<Rightarrow> run_model_validators rest (target' ++ returned))"

definition run_model_before_validators :: "SchemaCache \<Rightarrow> kwargs option \<Rightarrow> pyerr + kwargs option" where
  "run_model_before_validators schema kwds =
     (if \<not> has_model_before schema then Inr kwds
      else if model_before schema = [] then Inr kwds
      else (case kwds of
              None \<Rightarrow> Inl Undefined
            | Some kw \<Rightarrow> map_sum id Some (run_model_validators (model_before schema) kw)))"

fun run_validator_chain :: "(pyval \<Rightarrow> pyval option) list \<Rightarrow> pyval \<Rightarrow> pyval option" where
  "run_validator_chain [] current_value = Some current_value"
| "run_validator_chain (validator # rest) current_value =
     (case validator current_value of
        None \<Rightarrow> None
      | Some new_value \<Rightarrow> run_validator_chain rest new_value)"

fun field_before_loop ::
  "(string \<times> (pyval \<Rightarrow> pyval option) list) list \<Rightarrow> kwargs \<Rightarrow> pyerr + kwargs" where
  "field_before_loop [] kw = Inr kw"
| "field_before_loop ((key, val) # rest) kw =
     (case kw key of
        None \<Rightarrow> field_before_loop rest kw
      | Some current_value \<Rightarrow>
          (case run_validator_chain val current_value of
             None \<Rightarrow> Inl Propagated
           | Some new_value \<Rightarrow> field_before_loop rest (kw(key \<mapsto> new_value))))"

definition run_field_before_validators :: "SchemaCache \<Rightarrow> kwargs option \<Rightarrow> pyerr + kwargs option" where
  "run_field_before_validators schema kwds =
     (if \<not> has_field_before schema then Inr kwds
      else if field_before schema = [] then Inr kwds
      else (case kwds of
              None \<Rightarrow> Inl Undefined
            | Some kw \<Rightarrow> map_sum id Some (field_before_loop (field_before schema) kw)))"

text \<open>run_field_after_validators reads an attribute through DataModel_getattro and writes
  it back through DataModel_setattro. A name that is not in the field store is looked
  up on the class by the interpreter; the model takes it to be absent.\<close>

fun field_after_loop ::
  "host \<Rightarrow> SchemaCache \<Rightarrow> (string \<times> (pyval \<Rightarrow> pyval option) list) list \<Rightarrow> InstanceData
     \<Rightarrow> pyerr option \<times> InstanceData" where
  "field_after_loop h schema [] data = (None, data)"
| "field_after_loop h schema ((key, val) # rest) data =
     (case data key of
        None \<Rightarrow> field_after_loop h schema rest data
      | Some current_value \<Rightarrow>
          (case run_validator_chain val current_value of
             None \<Rightarrow> (Some Propagated, data)
           | Some new_value \<Rightarrow>
               (case DataModel_setattro h schema data key new_value of
                  (Some e, data') \<Rightarrow> (Some e, data')
                | (None, data') \<Rightarrow> field_after_loop h schema rest data')))"

definition run_field_after_validators ::
  "host \<Rightarrow> SchemaCache \<Rightarrow> InstanceData \<Rightarrow> pyerr option \<times> InstanceData" where
  "run_field_after_validators h schema data =
     (if \<not> has_field_after schema then (None, data)
      else field_after_loop h schema (field_after schema) data)"

fun model_after_loop ::
  "(InstanceData \<Rightarrow> InstanceData option) list \<Rightarrow> InstanceData \<Rightarrow> pyerr option \<times> InstanceData" where
  "model_after_loop [] data = (None, data)"
| "model_after_loop (validator # rest) data =
     (case validator data of
        None \<Rightarrow> (Some Propagated, data)
      | Some data' \<Rightarrow> model_after_loop rest data')"

definition run_model_after_validators :: "SchemaCache \<Rightarrow> InstanceData \<Rightarrow> pyerr option \<times> InstanceData" where
  "run_model_after_validators schema data =
     (if \<not> has_model_after schema then (None, data)
      else model_after_loop (model_after schema) data)"

section \<open>Construction (data_model.cpp)\<close>

text \<open>
  What DataModel_init returns: 0, 0 while an exception that the field loop left
  (\<open>leaves_exception\<close>) is still pending, or \<open>-1\<close> with the exception it set or
  passed on.
\<close>

datatype init_status = Returned_0 | Returned_0_pending | Returned_minus1 pyerr

text \<open>
  DataModel_init on a compiled schema: what it returns, and the field store of \<open>self\<close>
  after the call. A collector with errors ends the call with a TypeError of its
  rendering, which replaces a pending exception. With no error in the collector and an
  exception pending, the after-validator passes return at once if the schema has
  neither kind of after-validator, and the function returns 0; otherwise they call into
  the interpreter while the exception is pending.
\<close>

definition DataModel_init ::
  "host \<Rightarrow> SchemaCache \<Rightarrow> InstanceData \<Rightarrow> kwargs option \<Rightarrow> init_status \<times> InstanceData" where
  "DataModel_init h schema data kwds =
     (case run_model_before_validators schema kwds of
        Inl e \<Rightarrow> (Returned_minus1 e, data)
      | Inr kwds1 \<Rightarrow>
          (case run_field_before_validators schema kwds1 of
             Inl e \<Rightarrow> (Returned_minus1 e, data)
           | Inr kwds2 \<Rightarrow>
               (case init_fields h (deserializers schema) kwds2 (schema_fields schema) data
                       (ErrorCollector None) False of
                  None \<Rightarrow> (Returned_minus1 Undefined, data)
                | Some (data', collector, pending) \<Rightarrow>
                    if has_errors collector
                    then (Returned_minus1 (TypeError (to_json h collector)), data')
                    else if pending
                    then (if has_field_after schema \<or> has_model_after schema
                          then (Returned_minus1 Undefined, data')
                          else (Returned_0_pending, data'))
                    else (case run_field_after_validators h schema data' of
                            (Some e, data'') \<Rightarrow> (Returned_minus1 e, data'')
                          | (None, data'') \<Rightarrow>
                              (case run_model_after_validators schema data'' of
                                 (Some e, stored) \<Rightarrow> (Returned_minus1 e, stored)
                               | (None, stored) \<Rightarrow> (Returned_0, stored))))))"

section \<open>Auxiliary notions for the statements\<close>

text \<open>The argument arities that the validators rely on: a list or set schema has an
  element schema, a dict schema a key and a value schema, here and in every argument.\<close>

fun wf_schema :: "TypeSchema \<Rightarrow> bool" where
  "wf_schema (TypeSchema et og as dm opt ck) =
     ((ck = CK_LIST \<longrightarrow> as \<noteq> []) \<and> (ck = CK_SET \<longrightarrow> as \<noteq> []) \<and>
      (ck = CK_DICT \<longrightarrow> 2 \<le> length as) \<and> (\<forall>a \<in> set as. wf_schema a))"

text \<open>The size of an error tree: its members plus the elements of its arrays. Every
  recording makes it larger.\<close>

definition entry_size :: "json \<Rightarrow> nat" where
  "entry_size v = (case v of JArray arr \<Rightarrow> Suc (length arr) | _ \<Rightarrow> 1)"

definition tree_size :: "ErrorCollector \<Rightarrow> nat" where
  "tree_size c = sum_list (map (\<lambda>m. entry_size (snd m)) (lazy_init c))"

text \<open>One collector extends another: at every path the items of the first are still
  there, in order, in front of whatever was added.\<close>

definition extends :: "ErrorCollector \<Rightarrow> ErrorCollector \<Rightarrow> bool" where
  "extends c c' = (\<forall>p. \<exists>more. items_at c' p = items_at c p @ more)"

text \<open>
  What a validator may do to the collector it is given, by outcome: a success and a
  pending exception leave it as it was; a failure with the error indicator clear only
  adds to it, and has added something if \<open>n\<close> holds (below: if nested constructions
  report their failures); a read past a schema's arguments needs a schema that is not
  well-formed (\<open>w\<close> fails).
\<close>

definition outcome_ok ::
  "bool \<Rightarrow> bool \<Rightarrow> ErrorCollector \<Rightarrow> (failure + 'a) \<times> ErrorCollector \<Rightarrow> bool" where
  "outcome_ok n w c r =
     (case r of
        (Inr y, c') \<Rightarrow> c' = c
      | (Inl e, c') \<Rightarrow>
          if e = Failed
          then extends c c' \<and> (n \<longrightarrow> has_errors c' \<and> tree_size c < tree_size c')
          else if e = Raised then c' = c
          else \<not> w)"

text \<open>A failed construction of a nested record never reports the empty JSON object.\<close>

definition nested_ok :: "host \<Rightarrow> bool" where
  "nested_ok h = (\<forall>t kw s. call_model h t kw = Inl s \<longrightarrow> json_parse h s \<noteq> Some [])"

text \<open>Collectors that only ever saw \<open>add_error\<close>: every stored value is a message string,
  or an array of at least two values.\<close>

definition scalar_or_long :: "ErrorCollector \<Rightarrow> string \<Rightarrow> bool" where
  "scalar_or_long c p =
     (case entry_at c p of
        None \<Rightarrow> True
      | Some (JArray arr) \<Rightarrow> 2 \<le> length arr
      | Some (JString m) \<Rightarrow> True
      | Some other \<Rightarrow> False)"

text \<open>The aliases of a field, none if the alias pointer is null.\<close>

definition aliases :: "FieldSchema \<Rightarrow> string list" where
  "aliases fs = (case alias_list fs of None \<Rightarrow> [] | Some keys \<Rightarrow> keys)"

section \<open>The plain-value path in the words of the specification\<close>





section \<open>A host for the examples\<close>

text \<open>
  The examples below run on a host that behaves as CPython does on the built-in values
  they use. An instance check against a class holds for the value's own type and for a
  \<open>bool\<close> against \<open>int\<close>; against the unsubscripted \<open>typing\<close> containers it is the check
  against the built-in container; against the other \<open>typing\<close> objects the check raises,
  and \<open>PyObject_IsInstance\<close> returns \<open>-1\<close>, which is not zero.
\<close>

definition example_is_instance :: "pyval \<Rightarrow> pytype \<Rightarrow> bool" where
  "example_is_instance v t =
     (if PyType_Check t then Py_TYPE v = t \<or> (Py_TYPE v = BoolType \<and> t = IntType)
      else if t = TupleType then Py_TYPE v = PyTuple_Type
      else if t = SetType then Py_TYPE v = PySet_Type
      else if t = DictType then Py_TYPE v = PyDict_Type
      else if t = ListType then Py_TYPE v = PyList_Type
      else True)"

definition digit_value :: "char \<Rightarrow> nat option" where
  "digit_value ch =
     (if ch = CHR ''0'' then Some 0 else if ch = CHR ''1'' then Some 1
      else if ch = CHR ''2'' then Some 2 else if ch = CHR ''3'' then Some 3
      else if ch = CHR ''4'' then Some 4 else if ch = CHR ''5'' then Some 5
      else if ch = CHR ''6'' then Some 6 else if ch = CHR ''7'' then Some 7
      else if ch = CHR ''8'' then Some 8 else if ch = CHR ''9'' then Some 9
      else None)"

fun parse_digits :: "nat \<Rightarrow> string \<Rightarrow> nat option" where
  "parse_digits acc [] = Some acc"
| "parse_digits acc (ch # rest) =
     (case digit_value ch of
        None \<Rightarrow> None
      | Some d \<Rightarrow> parse_digits (10 * acc + d) rest)"

text \<open>\<open>int(s)\<close> on an optional minus sign and decimal digits; every other text is taken
  to raise.\<close>

definition int_of_text :: "string \<Rightarrow> int option" where
  "int_of_text s =
     (case s of
        [] \<Rightarrow> None
      | ch # rest \<Rightarrow>
          if ch = CHR ''-''
          then (if rest = [] then None else map_option (\<lambda>n. - int n) (parse_digits 0 rest))
          else map_option int (parse_digits 0 s))"

definition text_of_int :: "int \<Rightarrow> string" where
  "text_of_int n = (if n < 0 then ''-'' @ string_of_nat (nat (- n)) else string_of_nat (nat n))"

text \<open>The constructor calls the examples make: \<open>int\<close> and \<open>str\<close> on integers, booleans
  and text, \<open>list\<close> and \<open>tuple\<close> on each other. Every other call is taken to raise.\<close>

definition example_call_type :: "pytype \<Rightarrow> pyval \<Rightarrow> pyval option" where
  "example_call_type t v =
     (if t = IntType then
        (case v of
           PyUnicode s \<Rightarrow> map_option PyLong (int_of_text s)
         | PyLong n \<Rightarrow> Some (PyLong n)
         | PyBool b \<Rightarrow> Some (PyLong (if b then 1 else 0))
         | _ \<Rightarrow> None)
      else if t = StrType then
        (case v of
           PyUnicode s \<Rightarrow> Some (PyUnicode s)
         | PyLong n \<Rightarrow> Some (PyUnicode (text_of_int n))
         | _ \<Rightarrow> None)
      else if t = PyList_Type then
        (case v of
           PyList xs \<Rightarrow> Some (PyList xs)
         | PyTuple xs \<Rightarrow> Some (PyList xs)
         | _ \<Rightarrow> None)
      else if t = PyTuple_Type then
        (case v of
           PyList xs \<Rightarrow> Some (PyTuple xs)
         | PyTuple xs \<Rightarrow> Some (PyTuple xs)
         | _ \<Rightarrow> None)
      else None)"

text \<open>Lists, dicts and sets are not hashable; a tuple is if its elements are.\<close>

fun example_hashable :: "pyval \<Rightarrow> bool" where
  "example_hashable (PyList xs) = False"
| "example_hashable (PyDict kvs) = False"
| "example_hashable (PySet xs) = False"
| "example_hashable (PyTuple xs) = list_all example_hashable xs"
| "example_hashable v = True"

fun example_type_name :: "pytype \<Rightarrow> string" where
  "example_type_name IntType = ''int''"
| "example_type_name StrType = ''str''"
| "example_type_name FloatType = ''float''"
| "example_type_name BoolType = ''bool''"
| "example_type_name PyNone_Type = ''NoneType''"
| "example_type_name PyList_Type = ''list''"
| "example_type_name PyDict_Type = ''dict''"
| "example_type_name PyTuple_Type = ''tuple''"
| "example_type_name PySet_Type = ''set''"
| "example_type_name (Class n) = n"
| "example_type_name (Model n) = n"
| "example_type_name t = ''typing''"

text \<open>
  The text that rapidjson's PrettyWriter gives with \<open>SetIndent(' ', 2)\<close>. A string is
  written between double quotes, with a backslash before a double quote and a
  backslash, the short escapes for backspace, tab, line feed, form feed and carriage
  return, and \<open>\u00XX\<close> with capital hexadecimal digits for the other characters below
  0x20. An empty array or object is written closed on the spot; otherwise every element
  or member stands on a line of its own, indented by two blanks per level, a comma
  after each but the last, a colon and a blank after a member's name. A number is
  written as the literal text that the model keeps of it.
\<close>

definition hex_digit :: "nat \<Rightarrow> char" where
  "hex_digit d = ''0123456789ABCDEF'' ! d"

definition escape_char :: "char \<Rightarrow> string" where
  "escape_char ch =
     (if ch = CHR 0x22 then [CHR 0x5C, CHR 0x22]
      else if ch = CHR 0x5C then [CHR 0x5C, CHR 0x5C]
      else if ch = CHR 0x08 then [CHR 0x5C, CHR ''b'']
      else if ch = CHR 0x09 then [CHR 0x5C, CHR ''t'']
      else if ch = CHR 0x0A then [CHR 0x5C, CHR ''n'']
      else if ch = CHR 0x0C then [CHR 0x5C, CHR ''f'']
      else if ch = CHR 0x0D then [CHR 0x5C, CHR ''r'']
      else if (of_char ch :: nat) < 0x20
      then [CHR 0x5C, CHR ''u'', CHR ''0'', CHR ''0'',
            hex_digit (of_char ch div 16), hex_digit (of_char ch mod 16)]
      else [ch])"

definition write_string :: "string \<Rightarrow> string" where
  "write_string s = [CHR 0x22] @ concat (map escape_char s) @ [CHR 0x22]"

definition write_indent :: "nat \<Rightarrow> string" where
  "write_indent level = concat (replicate level ''  '')"

fun separated :: "string list \<Rightarrow> string" where
  "separated [] = []"
| "separated [line] = line"
| "separated (line # next_line # rest) =
     line @ '','' @ [CHR 0x0A] @ separated (next_line # rest)"

fun pretty :: "nat \<Rightarrow> json \<Rightarrow> string" where
  "pretty level JNull = ''null''"
| "pretty level (JBool b) = (if b then ''true'' else ''false'')"
| "pretty level (JNumber literal) = literal"
| "pretty level (JString s) = write_string s"
| "pretty level (JArray arr) =
     (if arr = [] then ''[]''
      else ''['' @ [CHR 0x0A]
           @ separated (map (\<lambda>v. write_indent (Suc level) @ pretty (Suc level) v) arr)
           @ [CHR 0x0A] @ write_indent level @ '']'')"
| "pretty level (JObject ms) =
     (if ms = [] then ''{}''
      else ''{'' @ [CHR 0x0A]
           @ separated (map (\<lambda>(name, v). write_indent (Suc level) @ write_string name
                                        @ '': '' @ pretty (Suc level) v) ms)
           @ [CHR 0x0A] @ write_indent level @ ''}'')"

definition example_render :: "(string \<times> json) list \<Rightarrow> string" where
  "example_render ms = pretty 0 (JObject ms)"

text \<open>No exception text of the examples parses as JSON.\<close>

definition example_host :: host where
  "example_host =
     \<lparr> is_instance = example_is_instance,
       call_type = example_call_type,
       call_model = (\<lambda>t kw. Inl ''nested construction failed''),
       hashable = example_hashable,
       py_eq = (\<lambda>a b. a = b),
       type_name = example_type_name,
       tp_name = example_type_name,
       json_parse = (\<lambda>s. None),
       json_render = example_render \<rparr>"

text \<open>Schemas for the examples: a field with no alias, default or factory, and a record
  type with no validators and no deserializers.\<close>

definition required_field :: "string \<Rightarrow> pytype \<Rightarrow> FieldSchema" where
  "required_field name t =
     \<lparr> field_name = name, alias_list = None, default_value = None, default_factory = None,
       type_schema = compile_type_schema t \<rparr>"

definition plain_schema :: "FieldSchema list \<Rightarrow> (string \<times> pytype) list \<Rightarrow> SchemaCache" where
  "plain_schema fs annotations =
     \<lparr> schema_fields = fs, instance_annotations = annotations,
       has_model_before = False, has_field_before = False,
       has_field_after = False, has_model_after = False,
       model_before = [], field_before = [], field_after = [], model_after = [],
       deserializers = None \<rparr>"

section \<open>Properties of the error collector\<close>

lemma map_of_push_or_add:
  "map_of (push_or_add key v ms) p =
     (if p = key
      then (case map_of ms key of
              None \<Rightarrow> Some v
            | Some (JArray arr) \<Rightarrow> Some (JArray (arr @ [v]))
            | Some e \<Rightarrow> Some (JArray [e, v]))
      else map_of ms p)"
  by (induction key v ms rule: push_or_add.induct) (auto split: json.splits)

lemma push_or_add_not_empty: "push_or_add key v ms \<noteq> []"
  by (induction key v ms rule: push_or_add.induct) auto

lemma lazy_init_add_error:
  "lazy_init (add_error c field message) = push_or_add field (JString message) (lazy_init c)"
  by (simp add: add_error_def lazy_init_def)

lemma has_errors_add_error: "has_errors (add_error c field message)"
  by (simp add: add_error_def has_errors_def push_or_add_not_empty)

lemma entry_at_add_error:
  "entry_at (add_error c field message) p =
     (if p = field
      then (case entry_at c field of
              None \<Rightarrow> Some (JString message)
            | Some (JArray arr) \<Rightarrow> Some (JArray (arr @ [JString message]))
            | Some e \<Rightarrow> Some (JArray [e, JString message]))
      else entry_at c p)"
  by (simp add: entry_at_def lazy_init_add_error map_of_push_or_add)

lemma items_at_add_error:
  "items_at (add_error c field message) p =
     (if p = field then items_at c field @ [JString message] else items_at c p)"
  by (auto simp: items_at_def entry_at_add_error split: option.splits json.splits)

lemma scalar_or_long_add_error:
  "scalar_or_long c p \<Longrightarrow> scalar_or_long (add_error c field message) p"
  by (auto simp: scalar_or_long_def entry_at_add_error split: option.splits json.splits)

lemma add_errors_append:
  "add_errors c (calls @ [(field, message)]) = add_error (add_errors c calls) field message"
  by (induction c calls rule: add_errors.induct) auto

lemma items_at_add_errors:
  "items_at (add_errors c calls) p = items_at c p @ map JString (messages_for p calls)"
  by (induction c calls rule: add_errors.induct)
     (auto simp: items_at_add_error messages_for_def)

lemma scalar_or_long_add_errors:
  "scalar_or_long c p \<Longrightarrow> scalar_or_long (add_errors c calls) p"
  by (induction c calls rule: add_errors.induct) (auto simp: scalar_or_long_add_error)

lemma has_errors_add_errors:
  "has_errors (add_errors c calls) = (has_errors c \<or> calls \<noteq> [])"
proof (induction calls rule: rev_induct)
  case Nil
  show ?case by simp
next
  case (snoc e calls)
  obtain field message where e: "e = (field, message)" by (cases e)
  show ?case unfolding e add_errors_append by (simp add: has_errors_add_error)
qed

lemma entry_from_items:
  assumes "scalar_or_long c p"
  shows "entry_at c p =
     (case items_at c p of
        [] \<Rightarrow> None
      | [v] \<Rightarrow> Some v
      | vs \<Rightarrow> Some (JArray vs))"
  using assms
  by (auto simp: scalar_or_long_def items_at_def Suc_le_eq
           split: option.splits json.splits list.splits)

text \<open>
  C8. \<open>add_error\<close> appends. A single call on any collector leaves the items of every
  other path as they were and puts the new message behind the items already recorded
  at its own path. Starting from a fresh collector, after any run of calls the entry
  of a path is absent when no call named it, the message itself (a scalar) after one
  call, and the array of all its messages in call order after two or more; nothing
  recorded is overwritten or lost. \<open>has_errors\<close> holds exactly when at least one error
  was recorded.
\<close>

theorem add_error_appends:
  "items_at (add_error c field message) p =
     (if p = field then items_at c field @ [JString message] else items_at c p)
   \<and> entry_at (add_errors (ErrorCollector None) calls) p =
     (case messages_for p calls of
        [] \<Rightarrow> None
      | [m] \<Rightarrow> Some (JString m)
      | ms \<Rightarrow> Some (JArray (map JString ms)))
   \<and> has_errors (add_errors (ErrorCollector None) calls) = (calls \<noteq> [])"
proof (intro conjI)
  show "items_at (add_error c field message) p =
     (if p = field then items_at c field @ [JString message] else items_at c p)"
    by (rule items_at_add_error)
next
  let ?c = "add_errors (ErrorCollector None) calls"
  have fresh: "scalar_or_long (ErrorCollector None) p"
    by (simp add: scalar_or_long_def entry_at_def lazy_init_def)
  have "items_at (ErrorCollector None) p = []"
    by (simp add: items_at_def entry_at_def lazy_init_def)
  then have items: "items_at ?c p = map JString (messages_for p calls)"
    by (simp add: items_at_add_errors)
  have "entry_at ?c p =
     (case items_at ?c p of [] \<Rightarrow> None | [v] \<Rightarrow> Some v | vs \<Rightarrow> Some (JArray vs))"
    by (rule entry_from_items [OF scalar_or_long_add_errors [OF fresh]])
  then show "entry_at ?c p =
     (case messages_for p calls of
        [] \<Rightarrow> None
      | [m] \<Rightarrow> Some (JString m)
      | ms \<Rightarrow> Some (JArray (map JString ms)))"
    unfolding items by (simp split: list.splits)
next
  have "\<not> has_errors (ErrorCollector None)"
    by (simp add: has_errors_def)
  then show "has_errors (add_errors (ErrorCollector None) calls) = (calls \<noteq> [])"
    by (simp add: has_errors_add_errors)
qed

theorem add_error_appends_witness:
  "entry_at (add_errors (ErrorCollector None)
       [(''age'', ''first''), (''name'', ''other''), (''age'', ''second'')]) ''age''
     = Some (JArray [JString ''first'', JString ''second''])
   \<and> has_errors (add_errors (ErrorCollector None)
       [(''age'', ''first''), (''name'', ''other''), (''age'', ''second'')])"
  using add_error_appends [of "ErrorCollector None" "''age''" "''m''" "''age''"
          "[(''age'', ''first''), (''name'', ''other''), (''age'', ''second'')]"]
  by (simp add: messages_for_def)

section \<open>What validation does to the collector\<close>

lemma size_push_or_add:
  "sum_list (map (\<lambda>m. entry_size (snd m)) ms)
     < sum_list (map (\<lambda>m. entry_size (snd m)) (push_or_add key v ms))"
  by (induction key v ms rule: push_or_add.induct)
     (auto simp: entry_size_def split: json.splits)

lemma tree_size_add_error: "tree_size c < tree_size (add_error c field message)"
  by (simp add: tree_size_def lazy_init_add_error size_push_or_add)

lemma extends_refl: "extends c c"
  by (simp add: extends_def)

lemma extends_add_error: "extends c (add_error c field message)"
  by (simp add: extends_def items_at_add_error)

lemma items_at_push_or_add:
  "\<exists>more. (case map_of (push_or_add key v ms) p of
             None \<Rightarrow> [] | Some (JArray arr) \<Rightarrow> arr | Some e \<Rightarrow> [e])
         = (case map_of ms p of None \<Rightarrow> [] | Some (JArray arr) \<Rightarrow> arr | Some e \<Rightarrow> [e]) @ more"
  by (auto simp: map_of_push_or_add split: option.splits json.splits)

lemma items_at_foldl_push:
  "\<exists>more. (case map_of (foldl (\<lambda>ms (name, v). push_or_add (field @ ''.'' @ name) v ms) ms sub) p of
             None \<Rightarrow> [] | Some (JArray arr) \<Rightarrow> arr | Some e \<Rightarrow> [e])
         = (case map_of ms p of None \<Rightarrow> [] | Some (JArray arr) \<Rightarrow> arr | Some e \<Rightarrow> [e]) @ more"
proof (induction sub arbitrary: ms)
  case Nil
  show ?case by simp
next
  case (Cons e sub)
  obtain name v where e: "e = (name, v)" by (cases e)
  from items_at_push_or_add [of "field @ ''.'' @ name" v ms p]
  obtain m1 where m1: "(case map_of (push_or_add (field @ ''.'' @ name) v ms) p of
             None \<Rightarrow> [] | Some (JArray arr) \<Rightarrow> arr | Some e \<Rightarrow> [e])
         = (case map_of ms p of None \<Rightarrow> [] | Some (JArray arr) \<Rightarrow> arr | Some e \<Rightarrow> [e]) @ m1"
    by blast
  from Cons.IH [of "push_or_add (field @ ''.'' @ name) v ms"]
  obtain m2 where m2: "(case map_of (foldl (\<lambda>ms (name, v). push_or_add (field @ ''.'' @ name) v ms)
                 (push_or_add (field @ ''.'' @ name) v ms) sub) p of
             None \<Rightarrow> [] | Some (JArray arr) \<Rightarrow> arr | Some e \<Rightarrow> [e])
         = (case map_of (push_or_add (field @ ''.'' @ name) v ms) p of
             None \<Rightarrow> [] | Some (JArray arr) \<Rightarrow> arr | Some e \<Rightarrow> [e]) @ m2"
    by blast
  show ?case unfolding e using m1 m2 by simp
qed

lemma extends_add_suberror: "extends c (add_suberror h c field s)"
proof (cases "json_parse h s")
  case None
  then show ?thesis by (simp add: add_suberror_def extends_add_error)
next
  case (Some sub)
  show ?thesis
    unfolding extends_def items_at_def entry_at_def
    using items_at_foldl_push [of field "lazy_init c" sub]
    by (simp add: add_suberror_def Some lazy_init_def)
qed

lemma outcome_ok_failed_add_error: "outcome_ok n w c (Inl Failed, add_error c field message)"
  by (simp add: outcome_ok_def has_errors_add_error tree_size_add_error extends_add_error)

lemma outcome_ok_Inr: "outcome_ok n w c (Inr y, c)"
  by (simp add: outcome_ok_def)

lemma size_foldl_push:
  "sum_list (map (\<lambda>m. entry_size (snd m)) ms)
     \<le> sum_list (map (\<lambda>m. entry_size (snd m))
          (foldl (\<lambda>ms (name, v). push_or_add (field @ ''.'' @ name) v ms) ms sub))"
proof (induction sub arbitrary: ms)
  case Nil
  show ?case by simp
next
  case (Cons e sub)
  obtain name v where e: "e = (name, v)" by (cases e)
  have "sum_list (map (\<lambda>m. entry_size (snd m)) ms)
          < sum_list (map (\<lambda>m. entry_size (snd m)) (push_or_add (field @ ''.'' @ name) v ms))"
    by (rule size_push_or_add)
  also have "\<dots> \<le> sum_list (map (\<lambda>m. entry_size (snd m))
          (foldl (\<lambda>ms (name, v). push_or_add (field @ ''.'' @ name) v ms)
             (push_or_add (field @ ''.'' @ name) v ms) sub))"
    by (rule Cons.IH)
  finally show ?case by (simp add: e)
qed

lemma foldl_push_not_empty:
  "ms \<noteq> [] \<Longrightarrow> foldl (\<lambda>ms (name, v). push_or_add (field @ ''.'' @ name) v ms) ms sub \<noteq> []"
  by (induction sub arbitrary: ms) (auto simp: push_or_add_not_empty split: prod.splits)

lemma add_suberror_grows:
  assumes "json_parse h s \<noteq> Some []"
  shows "has_errors (add_suberror h c field s) \<and> tree_size c < tree_size (add_suberror h c field s)"
proof (cases "json_parse h s")
  case None
  then show ?thesis
    by (simp add: add_suberror_def has_errors_add_error tree_size_add_error)
next
  case (Some sub)
  with assms obtain e rest where sub: "sub = e # rest" by (cases sub) auto
  obtain name v where e: "e = (name, v)" by (cases e)
  let ?ms1 = "push_or_add (field @ ''.'' @ name) v (lazy_init c)"
  let ?f = "\<lambda>ms (name, v). push_or_add (field @ ''.'' @ name) v ms"
  have res: "add_suberror h c field s = ErrorCollector (Some (foldl ?f ?ms1 rest))"
    by (simp add: add_suberror_def Some sub e)
  have ne: "foldl ?f ?ms1 rest \<noteq> []"
    by (rule foldl_push_not_empty) (rule push_or_add_not_empty)
  have "sum_list (map (\<lambda>m. entry_size (snd m)) (lazy_init c))
          < sum_list (map (\<lambda>m. entry_size (snd m)) ?ms1)"
    by (rule size_push_or_add)
  also have "\<dots> \<le> sum_list (map (\<lambda>m. entry_size (snd m)) (foldl ?f ?ms1 rest))"
    by (rule size_foldl_push)
  finally show ?thesis using ne
    by (simp add: res has_errors_def tree_size_def lazy_init_def)
qed

lemma validate_data_model_ok:
  "outcome_ok (nested_ok h) w c (validate_data_model h value ts c path)"
  by (auto simp: validate_data_model_def outcome_ok_def nested_ok_def add_suberror_grows
           extends_add_suberror split: sum.splits)

lemma validate_int_ok: "outcome_ok n w c (validate_int h value c path)"
  by (simp add: validate_int_def outcome_ok_Inr outcome_ok_failed_add_error split: option.splits)

lemma validate_str_ok: "outcome_ok n w c (validate_str h value c path)"
  by (simp add: validate_str_def outcome_ok_Inr outcome_ok_failed_add_error split: option.splits)

lemma validate_float_ok: "outcome_ok n w c (validate_float h value c path)"
  by (simp add: validate_float_def outcome_ok_Inr outcome_ok_failed_add_error split: option.splits)

lemma validate_bool_ok: "outcome_ok n w c (validate_bool h value c path)"
  by (simp add: validate_bool_def outcome_ok_Inr outcome_ok_failed_add_error split: option.splits)

lemma convert_using_constructor_ok: "outcome_ok n w c (convert_using_constructor h value ts c path)"
  by (simp add: convert_using_constructor_def outcome_ok_Inr outcome_ok_failed_add_error
           split: option.splits)

lemma validate_plain_ok: "outcome_ok n w c (validate_plain h ds value ts c path)"
  by (simp add: validate_plain_def outcome_ok_Inr validate_int_ok validate_str_ok
        validate_float_ok validate_bool_ok convert_using_constructor_ok split: option.splits)

text \<open>The loops, over any element validator that meets the invariant on the argument
  schemas.\<close>

lemma validate_list_items_ok:
  assumes "\<And>v a c p. a \<in> set (args ts) \<Longrightarrow> outcome_ok n (wf_schema a) c (vc v a c p)"
    and "wf_schema ts \<Longrightarrow> args ts \<noteq> [] \<and> (\<forall>a \<in> set (args ts). wf_schema a)"
  shows "outcome_ok n (wf_schema ts) c (validate_list_items vc ts path i items c)"
proof (induction items arbitrary: i c)
  case Nil
  show ?case by (simp add: outcome_ok_def)
next
  case (Cons item rest)
  show ?case
  proof (cases "args ts")
    case Nil
    then show ?thesis using assms(2) by (auto simp: outcome_ok_def)
  next
    case (Cons a as)
    then have a: "a \<in> set (args ts)" by simp
    obtain r c' where r: "vc item a c (nested_path path (string_of_nat i)) = (r, c')"
      by (cases "vc item a c (nested_path path (string_of_nat i))")
    have ok: "outcome_ok n (wf_schema a) c (r, c')"
      using assms(1) [OF a, of c item "nested_path path (string_of_nat i)"] r by simp
    show ?thesis
    proof (cases r)
      case (Inl e)
      then show ?thesis using ok Cons r assms(2) a
        by (auto simp: outcome_ok_def split: if_splits)
    next
      case (Inr conv_item)
      then have c': "c' = c" using ok by (simp add: outcome_ok_def)
      obtain r2 c2 where r2: "validate_list_items vc ts path (Suc i) rest c = (r2, c2)"
        by (cases "validate_list_items vc ts path (Suc i) rest c")
      have "outcome_ok n (wf_schema ts) c (r2, c2)"
        using Cons.IH [where i = "Suc i" and c = c] r2 by simp
      then show ?thesis using Cons r Inr c' r2
        by (auto simp: outcome_ok_def split: sum.splits if_splits)
    qed
  qed
qed


lemma validate_list_ok:
  assumes "\<And>v a c p. a \<in> set (args ts) \<Longrightarrow> outcome_ok n (wf_schema a) c (vc v a c p)"
    and "wf_schema ts \<Longrightarrow> args ts \<noteq> [] \<and> (\<forall>a \<in> set (args ts). wf_schema a)"
  shows "outcome_ok n (wf_schema ts) c (validate_list h vc v0 ts c path)"
proof (cases v0)
  case (PyList items)
  obtain r c' where r: "validate_list_items vc ts path 0 items c = (r, c')"
    by (cases "validate_list_items vc ts path 0 items c")
  have "outcome_ok n (wf_schema ts) c (r, c')"
    using validate_list_items_ok [of ts n vc c path 0 items, OF assms] r by simp
  then show ?thesis using PyList r
    by (auto simp: validate_list_def outcome_ok_def split: sum.splits if_splits)
qed (simp_all add: validate_list_def outcome_ok_failed_add_error)

lemma validate_dict_items_ok:
  assumes "\<And>v c p. outcome_ok n (wf_schema ks) c (vc v ks c p)"
    and "\<And>v c p. outcome_ok n (wf_schema vs) c (vc v vs c p)"
  shows "outcome_ok n (wf_schema ks \<and> wf_schema vs) c
           (validate_dict_items h vc ks vs path entries new_dict c)"
proof (induction entries arbitrary: new_dict c)
  case Nil
  show ?case by (simp add: outcome_ok_def)
next
  case (Cons entry rest)
  obtain key val where entry: "entry = (key, val)" by (cases entry)
  define new_path where
    "new_path = nested_path path (case key of PyUnicode s \<Rightarrow> takeWhile (\<lambda>ch. ch \<noteq> CHR 0x00) s
        | _ \<Rightarrow> safe_type_name h key)"
  obtain r1 c1 where r1: "vc key ks c new_path = (r1, c1)" by (cases "vc key ks c new_path")
  have ok1: "outcome_ok n (wf_schema ks) c (r1, c1)" using assms(1) [of c key new_path] r1 by simp
  show ?case
  proof (cases r1)
    case (Inl e)
    then show ?thesis using ok1 r1 entry
      by (auto simp: outcome_ok_def Let_def new_path_def split: if_splits)
  next
    case key_ok: (Inr conv_key)
    then have c1: "c1 = c" using ok1 by (simp add: outcome_ok_def)
    obtain r2 c2 where r2: "vc val vs c new_path = (r2, c2)" by (cases "vc val vs c new_path")
    have ok2: "outcome_ok n (wf_schema vs) c (r2, c2)" using assms(2) [of c val new_path] r2 by simp
    show ?thesis
    proof (cases r2)
      case (Inl e)
      then show ?thesis using ok2 r1 r2 key_ok c1 entry
        by (auto simp: outcome_ok_def Let_def new_path_def split: if_splits)
    next
      case val_ok: (Inr conv_val)
      then have c2: "c2 = c" using ok2 by (simp add: outcome_ok_def)
      show ?thesis
      proof (cases "hashable h conv_key")
        case True
        then show ?thesis
          using Cons.IH [where c = c and new_dict = "dict_set_item h new_dict conv_key conv_val"]
            r1 r2 key_ok val_ok c1 c2 entry
          by (simp add: Let_def new_path_def)
      next
        case False
        then show ?thesis using r1 r2 key_ok val_ok c1 c2 entry
          by (simp add: Let_def new_path_def outcome_ok_def)
      qed
    qed
  qed
qed

lemma validate_dict_ok:
  assumes "\<And>v a c p. a \<in> set (args ts) \<Longrightarrow> outcome_ok n (wf_schema a) c (vc v a c p)"
    and "wf_schema ts \<Longrightarrow> 2 \<le> length (args ts) \<and> (\<forall>a \<in> set (args ts). wf_schema a)"
  shows "outcome_ok n (wf_schema ts) c (validate_dict h vc v0 ts c path)"
proof (cases v0)
  case (PyDict entries)
  show ?thesis
  proof (cases "\<exists>ks vs more. args ts = ks # vs # more")
    case True
    then obtain ks vs more where a: "args ts = ks # vs # more" by blast
    obtain r c' where r: "validate_dict_items h vc ks vs path entries [] c = (r, c')"
      by (cases "validate_dict_items h vc ks vs path entries [] c")
    have "outcome_ok n (wf_schema ks \<and> wf_schema vs) c (r, c')"
      using validate_dict_items_ok [where ks = ks and vs = vs and vc = vc and c = c and h = h and n = n
              and path = path and entries = entries and new_dict = "[]"] assms(1) a r
      by simp
    then show ?thesis using PyDict a r assms(2)
      by (auto simp: validate_dict_def outcome_ok_def split: sum.splits if_splits)
  next
    case False
    then have short: "length (args ts) < 2"
      by (cases "args ts"; cases "tl (args ts)") auto
    with False PyDict assms(2) show ?thesis
      by (auto simp: validate_dict_def outcome_ok_def split: list.splits)
  qed
qed (simp_all add: validate_dict_def outcome_ok_failed_add_error)

lemma validate_tuple_items_ok:
  assumes "\<And>v a c p. a \<in> set schemas \<Longrightarrow> outcome_ok n (wf_schema a) c (vc v a c p)"
  shows "outcome_ok n (length items \<le> length schemas \<and> (\<forall>a \<in> set schemas. wf_schema a)) c
           (validate_tuple_items vc path i items schemas c)"
  using assms
proof (induction items arbitrary: schemas i c)
  case Nil
  show ?case by (simp add: outcome_ok_def)
next
  case (Cons item rest)
  show ?case
  proof (cases schemas)
    case Nil
    then show ?thesis by (simp add: outcome_ok_def)
  next
    case schemas: (Cons schema more)
    obtain r c' where r: "vc item schema c (printed_path path i) = (r, c')"
      by (cases "vc item schema c (printed_path path i)")
    have ok: "outcome_ok n (wf_schema schema) c (r, c')"
      using Cons.prems [of schema c item "printed_path path i"] r schemas by simp
    show ?thesis
    proof (cases r)
      case (Inl e)
      then show ?thesis using ok r schemas by (auto simp: outcome_ok_def split: if_splits)
    next
      case (Inr conv_item)
      then have c': "c' = c" using ok by (simp add: outcome_ok_def)
      obtain r2 c2 where r2: "validate_tuple_items vc path (Suc i) rest more c = (r2, c2)"
        by (cases "validate_tuple_items vc path (Suc i) rest more c")
      have "outcome_ok n (length rest \<le> length more \<and> (\<forall>a \<in> set more. wf_schema a)) c (r2, c2)"
        using Cons.IH [where schemas = more and i = "Suc i" and c = c] Cons.prems r2 schemas
        by simp
      then show ?thesis using r Inr c' r2 schemas
        by (auto simp: outcome_ok_def split: sum.splits if_splits)
    qed
  qed
qed

lemma validate_tuple_ok:
  assumes "\<And>v a c p. a \<in> set (args ts) \<Longrightarrow> outcome_ok n (wf_schema a) c (vc v a c p)"
    and "wf_schema ts \<Longrightarrow> (\<forall>a \<in> set (args ts). wf_schema a)"
  shows "outcome_ok n (wf_schema ts) c (validate_tuple h vc v0 ts c path)"
proof (cases v0)
  case (PyTuple items)
  obtain r c' where r: "validate_tuple_items vc path 0 items (args ts) c = (r, c')"
    by (cases "validate_tuple_items vc path 0 items (args ts) c")
  have "outcome_ok n (length items \<le> length (args ts) \<and> (\<forall>a \<in> set (args ts). wf_schema a)) c (r, c')"
    using validate_tuple_items_ok [where schemas = "args ts" and vc = vc and items = items
            and c = c and path = path and i = 0 and n = n] assms(1) r
    by simp
  then show ?thesis using PyTuple r assms(2)
    by (auto simp: validate_tuple_def num_args_def outcome_ok_def has_errors_add_error
          tree_size_add_error extends_add_error split: sum.splits if_splits)
qed (simp_all add: validate_tuple_def outcome_ok_failed_add_error)

lemma validate_set_items_ok:
  assumes "\<And>v a c p. a \<in> set (args ts) \<Longrightarrow> outcome_ok n (wf_schema a) c (vc v a c p)"
    and "wf_schema ts \<Longrightarrow> args ts \<noteq> [] \<and> (\<forall>a \<in> set (args ts). wf_schema a)"
  shows "outcome_ok n (wf_schema ts) c (validate_set_items h vc ts path idx items new_set c)"
proof (induction items arbitrary: idx new_set c)
  case Nil
  show ?case by (simp add: outcome_ok_def)
next
  case (Cons item rest)
  show ?case
  proof (cases "args ts")
    case Nil
    then show ?thesis using assms(2) by (auto simp: outcome_ok_def)
  next
    case (Cons a as)
    then have a: "a \<in> set (args ts)" by simp
    obtain r c' where r: "vc item a c (printed_path path idx) = (r, c')"
      by (cases "vc item a c (printed_path path idx)")
    have ok: "outcome_ok n (wf_schema a) c (r, c')"
      using assms(1) [OF a, of c item "printed_path path idx"] r by simp
    show ?thesis
    proof (cases r)
      case (Inl e)
      then show ?thesis using ok Cons r assms(2) a
        by (auto simp: outcome_ok_def split: if_splits)
    next
      case (Inr conv_item)
      then have c': "c' = c" using ok by (simp add: outcome_ok_def)
      show ?thesis
      proof (cases "hashable h conv_item")
        case True
        then show ?thesis
          using Cons.IH [where idx = "Suc idx" and c = c and new_set = "set_add h new_set conv_item"]
            Cons r Inr c'
          by simp
      next
        case False
        then show ?thesis using Cons r Inr c' by (simp add: outcome_ok_def)
      qed
    qed
  qed
qed

lemma validate_set_ok:
  assumes "\<And>v a c p. a \<in> set (args ts) \<Longrightarrow> outcome_ok n (wf_schema a) c (vc v a c p)"
    and "wf_schema ts \<Longrightarrow> args ts \<noteq> [] \<and> (\<forall>a \<in> set (args ts). wf_schema a)"
  shows "outcome_ok n (wf_schema ts) c (validate_set h vc v0 ts c path)"
proof (cases v0)
  case (PySet items)
  obtain r c' where r: "validate_set_items h vc ts path 0 items [] c = (r, c')"
    by (cases "validate_set_items h vc ts path 0 items [] c")
  have "outcome_ok n (wf_schema ts) c (r, c')"
    using validate_set_items_ok [of ts n vc c h path 0 items "[]", OF assms] r by simp
  then show ?thesis using PySet r
    by (auto simp: validate_set_def outcome_ok_def split: sum.splits if_splits)
qed (simp_all add: validate_set_def outcome_ok_failed_add_error)

lemma union_second_pass_out_of_bounds:
  assumes "\<And>v a c p. a \<in> set candidates \<Longrightarrow> outcome_ok n (wf_schema a) c (vc v a c p)"
    and "union_second_pass vc v0 candidates temp path = Inl e"
  shows "e = Failed \<or> (e = OutOfBounds \<and> (\<exists>a \<in> set candidates. \<not> wf_schema a))"
  using assms
proof (induction candidates arbitrary: temp)
  case Nil
  then show ?case by simp
next
  case (Cons candidate rest)
  obtain r t' where r: "vc v0 candidate temp path = (r, t')"
    by (cases "vc v0 candidate temp path")
  have ok: "outcome_ok n (wf_schema candidate) temp (r, t')"
    using Cons.prems(1) [of candidate temp v0 path] r by simp
  show ?case
  proof (cases r)
    case (Inl e')
    show ?thesis
    proof (cases "e' = OutOfBounds")
      case True
      then show ?thesis using Cons.prems(2) r Inl ok by (auto simp: outcome_ok_def)
    next
      case False
      then have "union_second_pass vc v0 rest t' path = Inl e"
        using Cons.prems(2) r Inl by simp
      then show ?thesis using Cons.IH [of t'] Cons.prems(1) by auto
    qed
  next
    case (Inr conv)
    then show ?thesis using Cons.prems(2) r by simp
  qed
qed

lemma validate_union_ok:
  assumes "\<And>v a c p. a \<in> set (args ts) \<Longrightarrow> outcome_ok n (wf_schema a) c (vc v a c p)"
    and "wf_schema ts \<Longrightarrow> (\<forall>a \<in> set (args ts). wf_schema a)"
  shows "outcome_ok n (wf_schema ts) c (validate_union h vc v0 ts c path)"
proof (cases "union_first_pass h v0 (args ts)")
  case True
  then show ?thesis by (simp add: validate_union_def outcome_ok_def)
next
  case False
  show ?thesis
  proof (cases "union_second_pass vc v0 (args ts) (ErrorCollector None) path")
    case (Inl e)
    from union_second_pass_out_of_bounds [OF assms(1) Inl]
    show ?thesis using False Inl assms(2)
      by (auto simp: validate_union_def outcome_ok_def has_errors_add_error tree_size_add_error
            extends_add_error)
  next
    case (Inr conv)
    then show ?thesis using False by (simp add: validate_union_def outcome_ok_def)
  qed
qed

lemma wf_schema_args: "wf_schema ts \<Longrightarrow> a \<in> set (args ts) \<Longrightarrow> wf_schema a"
  by (cases ts) auto

lemma wf_schema_list: "wf_schema ts \<Longrightarrow> container_kind ts = CK_LIST \<Longrightarrow> args ts \<noteq> []"
  by (cases ts) auto

lemma wf_schema_set: "wf_schema ts \<Longrightarrow> container_kind ts = CK_SET \<Longrightarrow> args ts \<noteq> []"
  by (cases ts) auto

lemma wf_schema_dict: "wf_schema ts \<Longrightarrow> container_kind ts = CK_DICT \<Longrightarrow> 2 \<le> length (args ts)"
  by (cases ts) auto

lemma validate_and_convert_ok:
  "outcome_ok (nested_ok h) (wf_schema ts) c (validate_and_convert h ds v0 ts c path)"
proof (induction ts arbitrary: v0 c path)
  case (TypeSchema et og as dm opt ck)
  define ts where "ts = TypeSchema et og as dm opt ck"
  let ?vc = "validate_and_convert h ds"
  let ?n = "nested_ok h"
  have IH: "\<And>v a c p. a \<in> set (args ts) \<Longrightarrow> outcome_ok ?n (wf_schema a) c (?vc v a c p)"
    using TypeSchema.IH by (simp add: ts_def)
  have wfa: "wf_schema ts \<Longrightarrow> \<forall>a \<in> set (args ts). wf_schema a"
    using wf_schema_args by blast
  have L: "outcome_ok ?n (wf_schema ts) c (validate_list h ?vc v0 ts c path)"
    if "container_kind ts = CK_LIST"
    by (rule validate_list_ok [OF IH]) (use that wfa wf_schema_list in auto)
  have D: "outcome_ok ?n (wf_schema ts) c (validate_dict h ?vc v0 ts c path)"
    if "container_kind ts = CK_DICT"
    by (rule validate_dict_ok [OF IH]) (use that wfa wf_schema_dict in auto)
  have T: "outcome_ok ?n (wf_schema ts) c (validate_tuple h ?vc v0 ts c path)"
    by (rule validate_tuple_ok [OF IH]) (use wfa in auto)
  have S: "outcome_ok ?n (wf_schema ts) c (validate_set h ?vc v0 ts c path)"
    if "container_kind ts = CK_SET"
    by (rule validate_set_ok [OF IH]) (use that wfa wf_schema_set in auto)
  have U: "outcome_ok ?n (wf_schema ts) c (validate_union h ?vc v0 ts c path)"
    by (rule validate_union_ok [OF IH]) (use wfa in auto)
  have "outcome_ok ?n (wf_schema ts) c (validate_and_convert h ds v0 ts c path)"
    unfolding validate_and_convert.simps [of h ds v0 ts c path]
    by (simp add: L D T S U outcome_ok_Inr validate_data_model_ok validate_plain_ok
          convert_using_constructor_ok)
  then show ?case by (simp only: ts_def)
qed


lemma validate_and_convert_success:
  "validate_and_convert h ds v0 ts c path = (Inr y, c') \<Longrightarrow> c' = c"
  using validate_and_convert_ok [of h ts c ds v0 path] by (simp add: outcome_ok_def)

lemma validate_and_convert_extends:
  "validate_and_convert h ds v0 ts c path = (Inl e, c') \<Longrightarrow> e \<noteq> OutOfBounds \<Longrightarrow> extends c c'"
  using validate_and_convert_ok [of h ts c ds v0 path]
  by (cases e) (auto simp: outcome_ok_def extends_refl split: if_splits)

lemma validate_and_convert_wf:
  "wf_schema ts \<Longrightarrow> fst (validate_and_convert h ds v0 ts c path) \<noteq> Inl OutOfBounds"
  using validate_and_convert_ok [of h ts c ds v0 path]
  by (cases "validate_and_convert h ds v0 ts c path") (auto simp: outcome_ok_def)













section \<open>Claims about validation\<close>

text \<open>The definitions that the runs on the example host unfold.\<close>

lemmas example_defs =
  example_host_def example_is_instance_def example_call_type_def safe_type_name_def
  validate_plain_def try_deserializer_def validate_int_def validate_str_def
  validate_list_def validate_set_def validate_union_def convert_using_constructor_def
  nested_path_def printed_path_def check_type_def int_of_text_def digit_value_def
  handle_container_kind_def normalize_origin_def set_add_def Let_def
  compile_type_schema.simps(1)

text \<open>
  C3, at the failing input and beside it. The schema of \<open>Set[list]\<close> against the set
  \<open>{(1, 2)}\<close>: the element converts to the list \<open>[1, 2]\<close>, the insertion of the list
  into the new set fails because a list is not hashable, and validate_set returns at
  once. validate_and_convert returns failure with that exception pending and with
  nothing recorded, at the path or anywhere else. The neighbouring failures of the same
  validator are recorded: an element that does not convert (\<open>Set[int]\<close> against
  \<open>{"x"}\<close>) at the element's path, a value that is not a set at the path itself.
\<close>

theorem unhashable_element_fails_without_record:
  "validate_and_convert example_host None (PySet [PyTuple [PyLong 1, PyLong 2]])
       (compile_type_schema (Generic PySet_Type [PyList_Type])) (ErrorCollector None) ''tags''
     = (Inl Raised, ErrorCollector None)
   \<and> \<not> has_errors (ErrorCollector None)
   \<and> validate_and_convert example_host None (PySet [PyUnicode ''x''])
       (compile_type_schema (Generic PySet_Type [IntType])) (ErrorCollector None) ''tags''
     = (Inl Failed, ErrorCollector (Some [(''tags.0'', JString ''Expected type int, got str'')]))
   \<and> validate_and_convert example_host None (PyLong 5)
       (compile_type_schema (Generic PySet_Type [PyList_Type])) (ErrorCollector None) ''tags''
     = (Inl Failed, ErrorCollector (Some [(''tags'', JString ''Expected a set, got int'')]))"
  by (simp add: validate_and_convert.simps example_defs has_errors_def add_error_def
        lazy_init_def string_of_nat.simps digit_char_def)

text \<open>Compiled schemas of the annotations used below, and where the dispatcher sends
  them.\<close>

lemma compile_int: "compile_type_schema IntType = TypeSchema IntType None [] False False CK_NONE"
  by simp

lemma compile_list_of:
  "compile_type_schema (Generic PyList_Type [t])
     = TypeSchema (Generic PyList_Type [t]) (Some PyList_Type) [compile_type_schema t]
         False False CK_LIST"
  by (simp add: compile_type_schema.simps(1) handle_container_kind_def normalize_origin_def)

lemma validate_and_convert_list_of:
  "validate_and_convert h ds v0 (compile_type_schema (Generic PyList_Type [t])) c path
     = validate_list h (validate_and_convert h ds) v0
         (compile_type_schema (Generic PyList_Type [t])) c path"
  unfolding compile_list_of
  by (subst validate_and_convert.simps) simp

lemma validate_and_convert_int:
  "validate_and_convert h ds v0 (compile_type_schema IntType) c path
     = validate_plain h ds v0 (compile_type_schema IntType) c path"
  unfolding compile_int
  by (subst validate_and_convert.simps) simp

lemma validate_int_failure:
  assumes "\<forall>y. fst (validate_and_convert h ds v0 (compile_type_schema IntType) c p) \<noteq> Inr y"
  shows "validate_and_convert h ds v0 (compile_type_schema IntType) c p
           = (Inl Failed, add_error c p (''Expected type int, got '' @ safe_type_name h v0))"
  using assms unfolding validate_and_convert_int
  by (auto simp: validate_plain_def validate_int_def split: option.splits if_splits)

lemma nested_path_short:
  "length path + length suffix \<le> 254 \<Longrightarrow> nested_path path suffix = path @ ''.'' @ suffix"
proof -
  assume fits: "length path + length suffix \<le> 254"
  have "suffix = []" if "254 \<le> length path"
    using that fits by (cases suffix) auto
  then show ?thesis using fits by (auto simp: nested_path_def)
qed

lemma validate_list_items_first_failure:
  assumes "args ts = elem # others"
    and "k < length items"
    and "\<And>i. i < k \<Longrightarrow> \<exists>y. fst (validate_and_convert h ds (items ! i) elem c
                                  (nested_path path (string_of_nat (j + i)))) = Inr y"
    and "validate_and_convert h ds (items ! k) elem c (nested_path path (string_of_nat (j + k)))
           = (Inl e, c')"
  shows "validate_list_items (validate_and_convert h ds) ts path j items c = (Inl e, c')"
  using assms(2-4)
proof (induction items arbitrary: j k)
  case Nil
  then show ?case by simp
next
  case (Cons item rest)
  show ?case
  proof (cases k)
    case 0
    then show ?thesis using Cons.prems(3) assms(1) by simp
  next
    case (Suc k')
    from Cons.prems(2) [of 0] Suc
    obtain y where "fst (validate_and_convert h ds item elem c
                           (nested_path path (string_of_nat j))) = Inr y"
      by auto
    then have head: "validate_and_convert h ds item elem c (nested_path path (string_of_nat j))
                       = (Inr y, c)"
      using validate_and_convert_success [of h ds item elem c "nested_path path (string_of_nat j)" y]
      by (cases "validate_and_convert h ds item elem c (nested_path path (string_of_nat j))") auto
    have "validate_list_items (validate_and_convert h ds) ts path (Suc j) rest c = (Inl e, c')"
    proof (rule Cons.IH [of k' "Suc j"])
      show "k' < length rest" using Cons.prems(1) Suc by simp
      show "\<exists>y. fst (validate_and_convert h ds (rest ! i) elem c
                        (nested_path path (string_of_nat (Suc j + i)))) = Inr y" if "i < k'" for i
        using Cons.prems(2) [of "Suc i"] that Suc by simp
      show "validate_and_convert h ds (rest ! k') elem c
              (nested_path path (string_of_nat (Suc j + k'))) = (Inl e, c')"
        using Cons.prems(3) Suc by simp
    qed
    then show ?thesis using head assms(1) by simp
  qed
qed

text \<open>
  C2, as the code has it. Validation of a list against \<open>List[int]\<close> goes through the
  elements in index order and stops at the first one that does not validate: if the
  elements before index \<open>k\<close> validate (by being integers or by coercion) and element \<open>k\<close>
  does not, the whole list fails and the collector gains exactly one message, at the
  path \<open><field>.k\<close> (as long as that path fits the 256-character buffer); no element
  after \<open>k\<close> is attempted.
\<close>

theorem validate_list_stops_at_first_failure:
  assumes "k < length items"
    and "\<forall>i<k. \<exists>y. fst (validate_and_convert h ds (items ! i) (compile_type_schema IntType) c
                        (nested_path path (string_of_nat i))) = Inr y"
    and "\<forall>y. fst (validate_and_convert h ds (items ! k) (compile_type_schema IntType) c
                   (nested_path path (string_of_nat k))) \<noteq> Inr y"
    and "length path + length (string_of_nat k) \<le> 254"
  shows "validate_and_convert h ds (PyList items)
           (compile_type_schema (Generic PyList_Type [IntType])) c path
         = (Inl Failed,
            add_error c (path @ ''.'' @ string_of_nat k)
              (''Expected type int, got '' @ safe_type_name h (items ! k)))"
proof -
  let ?ts = "compile_type_schema (Generic PyList_Type [IntType])"
  have a: "args ?ts = compile_type_schema IntType # []"
    unfolding compile_list_of by simp
  have fail: "validate_and_convert h ds (items ! k) (compile_type_schema IntType) c
                (nested_path path (string_of_nat (0 + k)))
              = (Inl Failed, add_error c (nested_path path (string_of_nat k))
                   (''Expected type int, got '' @ safe_type_name h (items ! k)))"
    using validate_int_failure [OF assms(3)] by simp
  have "validate_list_items (validate_and_convert h ds) ?ts path 0 items c
          = (Inl Failed, add_error c (nested_path path (string_of_nat k))
               (''Expected type int, got '' @ safe_type_name h (items ! k)))"
    by (rule validate_list_items_first_failure [OF a assms(1) _ fail]) (use assms(2) in simp)
  then show ?thesis
    unfolding validate_and_convert_list_of
    by (simp add: validate_list_def nested_path_short [OF assms(4)])
qed

theorem validate_list_stops_at_first_failure_witness:
  "validate_and_convert example_host None
       (PyList [PyUnicode ''1'', PyLong 2, PyUnicode ''x''])
       (compile_type_schema (Generic PyList_Type [IntType])) (ErrorCollector None) ''f''
     = (Inl Failed, ErrorCollector (Some [(''f.2'', JString ''Expected type int, got str'')]))"
proof -
  let ?items = "[PyUnicode ''1'', PyLong 2, PyUnicode ''x'']"
  have k: "(2::nat) < length ?items" by simp
  have before: "\<forall>i<2. \<exists>y. fst (validate_and_convert example_host None (?items ! i)
                   (compile_type_schema IntType) (ErrorCollector None)
                   (nested_path ''f'' (string_of_nat i))) = Inr y"
    by (auto simp: less_Suc_eq numeral_2_eq_2 validate_and_convert.simps example_defs)
  have at: "\<forall>y. fst (validate_and_convert example_host None (?items ! 2)
                   (compile_type_schema IntType) (ErrorCollector None)
                   (nested_path ''f'' (string_of_nat 2))) \<noteq> Inr y"
    by (simp add: validate_and_convert.simps example_defs)
  have fits: "length ''f'' + length (string_of_nat 2) \<le> 254"
    by (simp add: string_of_nat.simps)
  from validate_list_stops_at_first_failure [OF k before at fits]
  show ?thesis
    by (simp add: add_error_def lazy_init_def string_of_nat.simps digit_char_def
          safe_type_name_def example_host_def)
qed

theorem list_later_elements_not_attempted_counterexample:
  "fst (validate_and_convert example_host None (PyUnicode ''y'') (compile_type_schema IntType)
          (ErrorCollector None) ''f.1'') = Inl Failed
   \<and> validate_and_convert example_host None (PyList [PyUnicode ''x'', PyUnicode ''y''])
       (compile_type_schema (Generic PyList_Type [IntType])) (ErrorCollector None) ''f''
     = (Inl Failed, ErrorCollector (Some [(''f.0'', JString ''Expected type int, got str'')]))"
  by (simp add: validate_and_convert.simps example_defs add_error_def lazy_init_def
        string_of_nat.simps digit_char_def)
















text \<open>
  C10. At a position declared \<open>int\<close>, a boolean is returned as the boolean it is, and
  nothing is recorded: it is an instance of \<open>int\<close> (\<open>bool\<close> subclasses \<open>int\<close>), and were
  the instance check not to hold, \<open>PyLong_Check\<close> accepts it in validate_int as long as
  no registered deserializer takes it first.
\<close>

theorem bool_passes_as_int:
  assumes "is_instance h (PyBool b) IntType
           \<or> try_deserializer h ds (PyBool b) (compile_type_schema IntType) = None"
  shows "validate_and_convert h ds (PyBool b) (compile_type_schema IntType) c path
           = (Inr (PyBool b), c)"
  using assms unfolding validate_and_convert_int
  by (auto simp: validate_plain_def validate_int_def)

theorem bool_passes_as_int_witness:
  "validate_and_convert example_host None (PyBool True) (compile_type_schema IntType)
       (ErrorCollector None) ''count'' = (Inr (PyBool True), ErrorCollector None)
   \<and> validate_and_convert example_host None (PyBool False) (compile_type_schema IntType)
       (ErrorCollector None) ''count'' = (Inr (PyBool False), ErrorCollector None)"
proof -
  have inst: "is_instance example_host (PyBool b) IntType" for b
    by (simp add: example_host_def example_is_instance_def)
  show ?thesis
    using bool_passes_as_int [of example_host True None "ErrorCollector None" "''count''"]
          bool_passes_as_int [of example_host False None "ErrorCollector None" "''count''"]
          inst
    by simp
qed

section \<open>Claims about record construction and assignment\<close>

lemma first_alias_find:
  "first_alias kw keys = (case find (\<lambda>a. kw a \<noteq> None) keys of None \<Rightarrow> None | Some a \<Rightarrow> kw a)"
  by (induction keys) (auto split: option.splits)

lemma first_alias_none: "(first_alias kw keys = None) = (\<forall>a \<in> set keys. kw a = None)"
  by (induction keys) (auto split: option.splits)

lemma first_alias_first:
  "(\<forall>b \<in> set before. kw b = None) \<Longrightarrow> kw a = Some v0
     \<Longrightarrow> first_alias kw (before @ a # after) = Some v0"
  by (induction before) auto

lemma lookup_input_aliases:
  "lookup_input (Some kw) fs =
     (case first_alias kw (aliases fs) of Some v0 \<Rightarrow> Some v0 | None \<Rightarrow> kw (field_name fs))"
  by (simp add: lookup_input_def aliases_def split: option.splits)

text \<open>
  C6. The input of a field is the value under the first alias, in declared order, that
  the mapping has, and the value under the canonical name only if it has none of the
  aliases: an alias that is present wins over the canonical name, and over every alias
  declared after it.
\<close>

theorem alias_before_canonical:
  "lookup_input (Some kw) fs =
     (case find (\<lambda>a. kw a \<noteq> None) (aliases fs) of
        Some a \<Rightarrow> kw a
      | None \<Rightarrow> kw (field_name fs))
   \<and> (aliases fs = before @ a # after \<and> (\<forall>b \<in> set before. kw b = None) \<and> kw a = Some v
      \<longrightarrow> lookup_input (Some kw) fs = Some v)
   \<and> ((\<forall>a \<in> set (aliases fs). kw a = None)
      \<longrightarrow> lookup_input (Some kw) fs = kw (field_name fs))"
proof (intro conjI impI)
  show "lookup_input (Some kw) fs =
     (case find (\<lambda>a. kw a \<noteq> None) (aliases fs) of
        Some a \<Rightarrow> kw a
      | None \<Rightarrow> kw (field_name fs))"
    unfolding lookup_input_aliases first_alias_find
    by (auto split: option.splits dest: find_Some_iff [THEN iffD1])
next
  assume "aliases fs = before @ a # after \<and> (\<forall>b \<in> set before. kw b = None) \<and> kw a = Some v"
  then show "lookup_input (Some kw) fs = Some v"
    unfolding lookup_input_aliases by (simp add: first_alias_first)
next
  assume "\<forall>a \<in> set (aliases fs). kw a = None"
  then have "first_alias kw (aliases fs) = None" by (simp add: first_alias_none)
  then show "lookup_input (Some kw) fs = kw (field_name fs)"
    unfolding lookup_input_aliases by simp
qed

theorem alias_before_canonical_witness:
  "lookup_input
     (Some [''name'' \<mapsto> PyUnicode ''canonical'', ''nick'' \<mapsto> PyUnicode ''second alias''])
     \<lparr> field_name = ''name'', alias_list = Some [''handle'', ''nick''], default_value = None,
       default_factory = None, type_schema = compile_type_schema StrType \<rparr>
   = Some (PyUnicode ''second alias'')"
proof -
  let ?kw = "[''name'' \<mapsto> PyUnicode ''canonical'', ''nick'' \<mapsto> PyUnicode ''second alias'']"
  let ?fs = "\<lparr> field_name = ''name'', alias_list = Some [''handle'', ''nick''],
       default_value = None, default_factory = None,
       type_schema = compile_type_schema StrType \<rparr>"
  have "aliases ?fs = [''handle''] @ ''nick'' # []
        \<and> (\<forall>b \<in> set [''handle'']. ?kw b = None) \<and> ?kw ''nick'' = Some (PyUnicode ''second alias'')"
    by (simp add: aliases_def)
  then show ?thesis
    by (rule mp [OF alias_before_canonical [THEN conjunct2, THEN conjunct1], rotated])
qed


lemma store_validated_null_optional:
  "is_optional (type_schema fs)
     \<Longrightarrow> store_validated h ds fs Py_None data c = Some (data(field_name fs \<mapsto> Py_None), c)"
  unfolding store_validated_def
  by (subst validate_and_convert.simps) simp

lemma lookup_input_none:
  "(lookup_input kwds fs = None)
     = (case kwds of
          None \<Rightarrow> True
        | Some kw \<Rightarrow> (\<forall>a \<in> set (aliases fs). kw a = None) \<and> kw (field_name fs) = None)"
proof (cases kwds)
  case None
  then show ?thesis by (simp add: lookup_input_def)
next
  case (Some kw)
  show ?thesis
    unfolding Some lookup_input_aliases
    using first_alias_none [of kw "aliases fs"]
    by (cases "first_alias kw (aliases fs)") auto
qed

text \<open>
  C4. A field is absent when the mapping is null or has neither an alias of the field
  nor its canonical name. For an absent field the iteration of the field loop does
  this: if a default factory is declared it is called, its result is validated as the
  field's value, and its failure records "Missing required field and default factory
  call failed" at the field's path and ends the iteration; otherwise the fixed default,
  if declared, is validated as the value; otherwise, if the field's type schema is
  optional, null is stored; otherwise "Missing required field" is recorded at the
  field's path, exactly once, nothing else in the collector changes and nothing is
  stored.
\<close>

theorem missing_field_ladder:
  "(lookup_input kwds fs = None)
     = (case kwds of
          None \<Rightarrow> True
        | Some kw \<Rightarrow> (\<forall>a \<in> set (aliases fs). kw a = None) \<and> kw (field_name fs) = None)
   \<and> (lookup_input kwds fs = None \<longrightarrow>
        init_field h ds kwds fs data c =
          (case default_factory fs of
             Some (Some produced) \<Rightarrow> store_validated h ds fs produced data c
           | Some None \<Rightarrow>
               Some (data, add_error c (field_name fs)
                             ''Missing required field and default factory call failed'')
           | None \<Rightarrow>
               (case default_value fs of
                  Some fixed \<Rightarrow> store_validated h ds fs fixed data c
                | None \<Rightarrow>
                    if is_optional (type_schema fs)
                    then Some (data(field_name fs \<mapsto> Py_None), c)
                    else Some (data, add_error c (field_name fs) ''Missing required field''))))
   \<and> items_at (add_error c (field_name fs) ''Missing required field'') p
       = (if p = field_name fs then items_at c p @ [JString ''Missing required field'']
          else items_at c p)"
proof (intro conjI impI)
  show "(lookup_input kwds fs = None)
     = (case kwds of
          None \<Rightarrow> True
        | Some kw \<Rightarrow> (\<forall>a \<in> set (aliases fs). kw a = None) \<and> kw (field_name fs) = None)"
    by (rule lookup_input_none)
next
  assume "lookup_input kwds fs = None"
  then show "init_field h ds kwds fs data c =
          (case default_factory fs of
             Some (Some produced) \<Rightarrow> store_validated h ds fs produced data c
           | Some None \<Rightarrow>
               Some (data, add_error c (field_name fs)
                             ''Missing required field and default factory call failed'')
           | None \<Rightarrow>
               (case default_value fs of
                  Some fixed \<Rightarrow> store_validated h ds fs fixed data c
                | None \<Rightarrow>
                    if is_optional (type_schema fs)
                    then Some (data(field_name fs \<mapsto> Py_None), c)
                    else Some (data, add_error c (field_name fs) ''Missing required field'')))"
    by (simp add: init_field_def resolve_missing_def store_validated_null_optional
          split: option.splits)
next
  show "items_at (add_error c (field_name fs) ''Missing required field'') p
       = (if p = field_name fs then items_at c p @ [JString ''Missing required field'']
          else items_at c p)"
    by (simp add: items_at_add_error)
qed

theorem missing_field_ladder_witness:
  "init_field example_host None (Some [''other'' \<mapsto> PyLong 1]) (required_field ''age'' IntType)
       Map.empty (ErrorCollector None)
     = Some (Map.empty, ErrorCollector (Some [(''age'', JString ''Missing required field'')]))
   \<and> init_field example_host None None
       \<lparr> field_name = ''tags'', alias_list = Some [''labels''], default_value = Some (PyLong 0),
         default_factory = Some (Some (PyLong 7)), type_schema = compile_type_schema IntType \<rparr>
       Map.empty (ErrorCollector None)
     = Some ([''tags'' \<mapsto> PyLong 7], ErrorCollector None)"
proof -
  let ?f = "required_field ''age'' IntType"
  let ?g = "\<lparr> field_name = ''tags'', alias_list = Some [''labels''], default_value = Some (PyLong 0),
         default_factory = Some (Some (PyLong 7)), type_schema = compile_type_schema IntType \<rparr>"
  have absent: "lookup_input (Some [''other'' \<mapsto> PyLong 1]) ?f = None"
    by (simp add: lookup_input_def required_field_def)
  have absent': "lookup_input None ?g = None"
    by (simp add: lookup_input_def)
  have store: "store_validated example_host None ?g (PyLong 7) Map.empty (ErrorCollector None)
                 = Some ([''tags'' \<mapsto> PyLong 7], ErrorCollector None)"
    by (simp add: store_validated_def validate_and_convert.simps example_defs)
  from mp [OF missing_field_ladder [THEN conjunct2, THEN conjunct1] absent,
           of example_host None Map.empty "ErrorCollector None"]
       mp [OF missing_field_ladder [THEN conjunct2, THEN conjunct1] absent',
           of example_host None Map.empty "ErrorCollector None"]
  show ?thesis using store
    by (simp add: required_field_def add_error_def lazy_init_def)
qed


text \<open>
  C5, at two inputs. A record type with the fields \<open>age: int\<close> and \<open>tags: Set[int]\<close>,
  constructed from \<open>age = "old"\<close> and \<open>tags = {"x"}\<close>: both fields are attempted, each
  raw value is stored as a placeholder, both errors are in the tree, and DataModel_init
  returns \<open>-1\<close> with a TypeError of the rendered tree. The record type with the fields
  \<open>age: int\<close> and \<open>tags: Set[list]\<close>, constructed from \<open>age = 30\<close> and
  \<open>tags = {(1, 2)}\<close>: the tuple converts to a list, the insertion of the list into the
  new set fails, validate_set returns without an entry in the collector and with the
  exception pending; the field has failed and its raw value is stored, but the collector
  has no error, so DataModel_init sets no TypeError and returns 0 with the exception
  still pending.
\<close>

theorem field_failure_without_tree:
  "DataModel_init example_host
       (plain_schema [required_field ''age'' IntType,
                      required_field ''tags'' (Generic PySet_Type [IntType])] [])
       Map.empty (Some [''age'' \<mapsto> PyUnicode ''old'', ''tags'' \<mapsto> PySet [PyUnicode ''x'']])
     = (Returned_minus1
          (TypeError
            (''{'' @ [CHR 0x0A]
             @ ''  '' @ [CHR 0x22] @ ''age'' @ [CHR 0x22] @ '': ''
               @ [CHR 0x22] @ ''Expected type int, got str'' @ [CHR 0x22] @ '','' @ [CHR 0x0A]
             @ ''  '' @ [CHR 0x22] @ ''tags.0'' @ [CHR 0x22] @ '': ''
               @ [CHR 0x22] @ ''Expected type int, got str'' @ [CHR 0x22] @ [CHR 0x0A]
             @ ''}'')),
        [''age'' \<mapsto> PyUnicode ''old'', ''tags'' \<mapsto> PySet [PyUnicode ''x'']])
   \<and> init_fields example_host None
         (Some [''age'' \<mapsto> PyLong 30, ''tags'' \<mapsto> PySet [PyTuple [PyLong 1, PyLong 2]]])
         [required_field ''age'' IntType,
          required_field ''tags'' (Generic PySet_Type [PyList_Type])]
         Map.empty (ErrorCollector None) False
     = Some ([''age'' \<mapsto> PyLong 30, ''tags'' \<mapsto> PySet [PyTuple [PyLong 1, PyLong 2]]],
             ErrorCollector None, True)
   \<and> DataModel_init example_host
         (plain_schema [required_field ''age'' IntType,
                        required_field ''tags'' (Generic PySet_Type [PyList_Type])] [])
         Map.empty
         (Some [''age'' \<mapsto> PyLong 30, ''tags'' \<mapsto> PySet [PyTuple [PyLong 1, PyLong 2]]])
     = (Returned_0_pending,
        [''age'' \<mapsto> PyLong 30, ''tags'' \<mapsto> PySet [PyTuple [PyLong 1, PyLong 2]]])"
proof -
  let ?bad = "Some [''age'' \<mapsto> PyUnicode ''old'', ''tags'' \<mapsto> PySet [PyUnicode ''x'']]"
  let ?raw = "Some [''age'' \<mapsto> PyLong 30, ''tags'' \<mapsto> PySet [PyTuple [PyLong 1, PyLong 2]]]"
  have old: "init_field example_host None ?bad (required_field ''age'' IntType) data c
             = Some (data(''age'' \<mapsto> PyUnicode ''old''),
                     add_error c ''age'' ''Expected type int, got str'')
           \<and> \<not> leaves_exception example_host None ?bad (required_field ''age'' IntType) c"
    for data c
    by (simp add: init_field_def leaves_exception_def lookup_input_def required_field_def
          store_validated_def validate_and_convert.simps example_defs)
  have x: "init_field example_host None ?bad
               (required_field ''tags'' (Generic PySet_Type [IntType])) data c
             = Some (data(''tags'' \<mapsto> PySet [PyUnicode ''x'']),
                     add_error c ''tags.0'' ''Expected type int, got str'')
           \<and> \<not> leaves_exception example_host None ?bad
                   (required_field ''tags'' (Generic PySet_Type [IntType])) c"
    for data c
    by (simp add: init_field_def leaves_exception_def lookup_input_def required_field_def
          store_validated_def validate_and_convert.simps example_defs
          string_of_nat.simps digit_char_def)
  have thirty: "init_field example_host None ?raw (required_field ''age'' IntType) data c
             = Some (data(''age'' \<mapsto> PyLong 30), c)
           \<and> \<not> leaves_exception example_host None ?raw (required_field ''age'' IntType) c"
    for data c
    by (simp add: init_field_def leaves_exception_def lookup_input_def required_field_def
          store_validated_def validate_and_convert.simps example_defs)
  have pair: "init_field example_host None ?raw
               (required_field ''tags'' (Generic PySet_Type [PyList_Type])) data c
             = Some (data(''tags'' \<mapsto> PySet [PyTuple [PyLong 1, PyLong 2]]), c)
           \<and> leaves_exception example_host None ?raw
                 (required_field ''tags'' (Generic PySet_Type [PyList_Type])) c"
    for data c
    by (simp add: init_field_def leaves_exception_def lookup_input_def required_field_def
          store_validated_def validate_and_convert.simps example_defs)
  have loop_bad: "init_fields example_host None ?bad
         [required_field ''age'' IntType, required_field ''tags'' (Generic PySet_Type [IntType])]
         Map.empty (ErrorCollector None) False
       = Some ([''age'' \<mapsto> PyUnicode ''old'', ''tags'' \<mapsto> PySet [PyUnicode ''x'']],
               ErrorCollector (Some [(''age'', JString ''Expected type int, got str''),
                                     (''tags.0'', JString ''Expected type int, got str'')]),
               False)"
    by (simp add: old x add_error_def lazy_init_def)
  have loop_raw: "init_fields example_host None ?raw
         [required_field ''age'' IntType,
          required_field ''tags'' (Generic PySet_Type [PyList_Type])]
         Map.empty (ErrorCollector None) False
       = Some ([''age'' \<mapsto> PyLong 30, ''tags'' \<mapsto> PySet [PyTuple [PyLong 1, PyLong 2]]],
               ErrorCollector None, True)"
    by (simp add: thirty pair)
  have render: "to_json example_host
         (ErrorCollector (Some [(''age'', JString ''Expected type int, got str''),
                                (''tags.0'', JString ''Expected type int, got str'')]))
       = ''{'' @ [CHR 0x0A]
             @ ''  '' @ [CHR 0x22] @ ''age'' @ [CHR 0x22] @ '': ''
               @ [CHR 0x22] @ ''Expected type int, got str'' @ [CHR 0x22] @ '','' @ [CHR 0x0A]
             @ ''  '' @ [CHR 0x22] @ ''tags.0'' @ [CHR 0x22] @ '': ''
               @ [CHR 0x22] @ ''Expected type int, got str'' @ [CHR 0x22] @ [CHR 0x0A]
             @ ''}''"
    by (simp add: to_json_def example_host_def example_render_def write_string_def
          write_indent_def escape_char_def)
  have first: "DataModel_init example_host
       (plain_schema [required_field ''age'' IntType,
                      required_field ''tags'' (Generic PySet_Type [IntType])] [])
       Map.empty ?bad
     = (Returned_minus1
          (TypeError
            (''{'' @ [CHR 0x0A]
             @ ''  '' @ [CHR 0x22] @ ''age'' @ [CHR 0x22] @ '': ''
               @ [CHR 0x22] @ ''Expected type int, got str'' @ [CHR 0x22] @ '','' @ [CHR 0x0A]
             @ ''  '' @ [CHR 0x22] @ ''tags.0'' @ [CHR 0x22] @ '': ''
               @ [CHR 0x22] @ ''Expected type int, got str'' @ [CHR 0x22] @ [CHR 0x0A]
             @ ''}'')),
        [''age'' \<mapsto> PyUnicode ''old'', ''tags'' \<mapsto> PySet [PyUnicode ''x'']])"
    by (simp add: DataModel_init_def plain_schema_def run_model_before_validators_def
          run_field_before_validators_def loop_bad has_errors_def render
          del: init_fields.simps)
  have third: "DataModel_init example_host
         (plain_schema [required_field ''age'' IntType,
                        required_field ''tags'' (Generic PySet_Type [PyList_Type])] [])
         Map.empty ?raw
     = (Returned_0_pending,
        [''age'' \<mapsto> PyLong 30, ''tags'' \<mapsto> PySet [PyTuple [PyLong 1, PyLong 2]]])"
    by (simp add: DataModel_init_def plain_schema_def run_model_before_validators_def
          run_field_before_validators_def loop_raw has_errors_def
          del: init_fields.simps)
  show ?thesis
    by (intro conjI; (rule first | rule loop_raw | rule third))
qed






end
